theory Spec2Isabelle
  imports Complex_Main "HOL-Library.Word"
begin

unbundle bit_operations_syntax

section \<open>Data model of \<open>carla::nav::Navigation\<close>\<close>

text \<open>
  The embedding follows \<^verbatim>\<open>LibCarla/source/carla/nav/Navigation.cpp\<close>.
  C \<^verbatim>\<open>float\<close> and \<^verbatim>\<open>double\<close> values are carried by \<open>real\<close>: copying and
  comparing coordinates is exact under this reading. The single-precision
  arithmetic of \<^verbatim>\<open>GetWalkerTransform\<close> rounds, so each of its operations is a
  parameter of the model. The host is taken to be little-endian with a 64-bit
  \<^verbatim>\<open>unsigned long\<close> and \<^verbatim>\<open>size_t\<close>. Locks are not modelled: every function is
  the sequential behaviour of one call. The overload of \<^verbatim>\<open>Load\<close> that reads a
  file, the destructor and \<^verbatim>\<open>UpdateCrowd\<close> (the one writer of
  \<^verbatim>\<open>_delta_seconds\<close>, which steps the engine's crowd) are outside the model;
  the states of the model range over every value of the object's fields.
\<close>

type_synonym byte = "8 word"
type_synonym vec3 = "real \<times> real \<times> real"  \<comment> \<open>\<^verbatim>\<open>float[3]\<close> of the engine\<close>
type_synonym dtPolyRef = nat  \<comment> \<open>0 is the null reference\<close>
type_synonym dtTileRef = nat
type_synonym dtStatus = nat
type_synonym ActorId = nat  \<comment> \<open>an opaque identifier\<close>
type_synonym rng = nat  \<comment> \<open>state of \<^verbatim>\<open>rand()\<close>\<close>

text \<open>An access outside an object is undefined behaviour in the source; the
  model makes it a value.\<close>

datatype fault = OutOfRange | NullPointer

text \<open>\<^verbatim>\<open>carla::geom::Location\<close>, \<^verbatim>\<open>Rotation\<close> and \<^verbatim>\<open>Transform\<close>; the fields
  \<^verbatim>\<open>x\<close>, \<^verbatim>\<open>y\<close>, \<^verbatim>\<open>z\<close> carry a prefix.\<close>

record Location =
  loc_x :: real
  loc_y :: real
  loc_z :: real

record Rotation =
  pitch :: real
  yaw :: real
  roll :: real

record Transform =
  location :: Location
  rotation :: Rotation

record dtQueryFilter =
  includeFlags :: "16 word"
  excludeFlags :: "16 word"

text \<open>The surface object records what the loader handed to it: the
  initialisation parameters and the tiles added, in order.\<close>

record dtNavMesh =
  mesh_params :: "byte list"
  mesh_tiles :: "(dtTileRef \<times> byte list) list"

record dtNavMeshQuery =
  query_mesh :: dtNavMesh
  query_maxNodes :: nat

text \<open>The engine's parameter and agent records, with the fields that the
  source reads or writes, and its crowd: the pool of agent slots, the filter
  of quality tier 0 and the four obstacle-avoidance presets.\<close>

record dtObstacleAvoidanceParams =
  velBias :: real
  adaptiveDivs :: nat
  adaptiveRings :: nat
  adaptiveDepth :: nat

record dtCrowdAgentParams =
  radius :: real
  height :: real
  maxAcceleration :: real
  maxSpeed :: real
  collisionQueryRange :: real
  pathOptimizationRange :: real
  separationWeight :: real
  updateFlags :: "8 word"
  obstacleAvoidanceType :: nat

record dtCrowdAgent =
  active :: bool
  npos :: vec3
  vel :: vec3
  dvel :: vec3
  agent_params :: dtCrowdAgentParams
  targetRef :: dtPolyRef
  targetPos :: vec3

record dtCrowd =
  maxAgents :: nat
  maxAgentRadius :: real
  crowd_mesh :: "dtNavMesh option"
  agents :: "dtCrowdAgent list"
  filter0 :: dtQueryFilter
  obstacleParams :: "dtObstacleAvoidanceParams list"

text \<open>The fields of the \<^verbatim>\<open>Navigation\<close> object. A null pointer is \<open>None\<close>.\<close>

record Navigation =
  navMesh :: "dtNavMesh option"
  navQuery :: "dtNavMeshQuery option"
  crowd :: "dtCrowd option"
  binaryMesh :: "byte list"
  mappedId :: "ActorId \<rightharpoonup> int"
  baseHeight :: "ActorId \<rightharpoonup> real"
  yaw_walkers :: "ActorId \<rightharpoonup> real"
  delta_seconds :: real

text \<open>
  The spatial engine is an external library. Its queries, the constants and
  type sizes of its headers, and the outcome of its allocator are parameters
  of the model, collected in one record.
\<close>

record engine =
  sizeof_dtNavMeshParams :: nat
  sizeof_dtTileRef :: nat
  DT_SUCCESS :: dtStatus
  dtStatusFailed :: "dtStatus \<Rightarrow> bool"
  SAMPLE_POLYFLAGS_ALL :: "16 word"
  SAMPLE_POLYFLAGS_DISABLED :: "16 word"
  navMesh_init :: "byte list \<Rightarrow> dtStatus"
  dtAlloc :: "nat \<Rightarrow> bool"  \<comment> \<open>does an allocation of this size succeed\<close>
  findNearestPoly :: "dtNavMeshQuery \<Rightarrow> vec3 \<Rightarrow> vec3 \<Rightarrow> dtQueryFilter \<Rightarrow> dtPolyRef"
  findPath :: "dtNavMeshQuery \<Rightarrow> dtPolyRef \<Rightarrow> dtPolyRef \<Rightarrow> vec3 \<Rightarrow> vec3 \<Rightarrow> dtQueryFilter
    \<Rightarrow> nat \<Rightarrow> dtPolyRef list"
  closestPointOnPoly :: "dtNavMeshQuery \<Rightarrow> dtPolyRef \<Rightarrow> vec3 \<Rightarrow> vec3 \<Rightarrow> vec3"
  findStraightPath :: "dtNavMeshQuery \<Rightarrow> vec3 \<Rightarrow> vec3 \<Rightarrow> dtPolyRef list \<Rightarrow> nat \<Rightarrow> nat
    \<Rightarrow> vec3 list"
  findRandomPoint :: "dtNavMeshQuery \<Rightarrow> dtQueryFilter \<Rightarrow> rng \<Rightarrow> dtStatus \<times> dtPolyRef \<times> vec3 \<times> rng"
  defaultObstacleParams :: dtObstacleAvoidanceParams
  defaultFilter :: dtQueryFilter  \<comment> \<open>a default-constructed \<^verbatim>\<open>dtQueryFilter\<close>\<close>
  queryHalfExtents :: vec3
  DT_CROWD_ANTICIPATE_TURNS :: "8 word"
  DT_CROWD_OPTIMIZE_VIS :: "8 word"
  DT_CROWD_OPTIMIZE_TOPO :: "8 word"
  DT_CROWD_OBSTACLE_AVOIDANCE :: "8 word"
  DT_CROWD_SEPARATION :: "8 word"

text \<open>
  The floating-point operations of the machine and of the C library that
  \<^verbatim>\<open>GetWalkerTransform\<close> uses: the four operations on \<^verbatim>\<open>float\<close>, \<^verbatim>\<open>atan2f\<close>,
  \<^verbatim>\<open>fmod\<close>, the conversion of a literal or of a \<^verbatim>\<open>double\<close> to \<^verbatim>\<open>float\<close>, and the
  \<^verbatim>\<open>double\<close> constant \<^verbatim>\<open>M_PI\<close>.
\<close>

record float_ops =
  fadd :: "real \<Rightarrow> real \<Rightarrow> real"
  fsub :: "real \<Rightarrow> real \<Rightarrow> real"
  fmul :: "real \<Rightarrow> real \<Rightarrow> real"
  fdiv :: "real \<Rightarrow> real \<Rightarrow> real"
  atan2f :: "real \<Rightarrow> real \<Rightarrow> real"
  fmod :: "real \<Rightarrow> real \<Rightarrow> real"
  to_float :: "real \<Rightarrow> real"
  M_PI :: real

definition MAX_POLYS :: nat where
  "MAX_POLYS = 256"

definition MAX_AGENTS :: nat where
  "MAX_AGENTS = 500"

definition AGENT_RADIUS :: real where
  "AGENT_RADIUS = 3 / 10"

section \<open>Loading the binary navigation mesh\<close>

text \<open>Integers are copied from the buffer byte by byte, least significant
  byte first.\<close>

fun le_nat :: "byte list \<Rightarrow> nat" where
  "le_nat [] = 0"
| "le_nat (b # bs) = unat b + 256 * le_nat bs"

definition le_int32 :: "byte list \<Rightarrow> 32 word" where
  "le_int32 bs = word_of_nat (le_nat bs)"

text \<open>\<^verbatim>\<open>memcpy(dst, &content[pos], n)\<close>: the \<open>n\<close> bytes at \<open>pos\<close>, or the
  out-of-range access when the buffer does not hold them.\<close>

definition memcpy_from :: "byte list \<Rightarrow> nat \<Rightarrow> nat \<Rightarrow> fault + byte list" where
  "memcpy_from content pos n =
     (if pos + n \<le> length content then Inr (take n (drop pos content)) else Inl OutOfRange)"

definition NAVMESHSET_MAGIC :: "32 word" where
  "NAVMESHSET_MAGIC = push_bit 24 0x4D OR push_bit 16 0x53 OR push_bit 8 0x45 OR 0x54"

definition NAVMESHSET_VERSION :: "32 word" where
  "NAVMESHSET_VERSION = 1"

definition sizeof_header :: "engine \<Rightarrow> nat" where
  "sizeof_header e = 4 + 4 + 4 + sizeof_dtNavMeshParams e"

definition sizeof_tileHeader :: "engine \<Rightarrow> nat" where
  "sizeof_tileHeader e = sizeof_dtTileRef e + 4"

text \<open>\<^verbatim>\<open>static_cast<size_t>(dataSize)\<close> of a 32-bit \<^verbatim>\<open>int\<close>.\<close>

definition size_t_of_int :: "32 word \<Rightarrow> nat" where
  "size_t_of_int w = nat (sint w mod 2 ^ 64)"

text \<open>
  The tile loop \<^verbatim>\<open>for (int i = 0; i < header.numTiles; ++i)\<close>, with the number
  of iterations left as the recursion argument. The result is the fault of an
  out-of-range copy, or \<open>None\<close> for \<^verbatim>\<open>return false\<close> inside the loop, or the
  surface when the loop is left by \<^verbatim>\<open>break\<close> or by its condition.
\<close>

fun read_tiles :: "engine \<Rightarrow> byte list \<Rightarrow> nat \<Rightarrow> nat \<Rightarrow> dtNavMesh \<Rightarrow> fault + dtNavMesh option" where
  "read_tiles e content 0 pos mesh = Inr (Some mesh)"
| "read_tiles e content (Suc n) pos mesh =
     (case memcpy_from content pos (sizeof_tileHeader e) of
        Inl f \<Rightarrow> Inl f
      | Inr th \<Rightarrow>
          let tileRef = le_nat (take (sizeof_dtTileRef e) th);
              dataSize = le_int32 (drop (sizeof_dtTileRef e) th);
              pos1 = (pos + sizeof_tileHeader e) mod 2 ^ 64
          in if pos1 \<ge> length content then Inr None
             else if tileRef = 0 \<or> dataSize = 0 then Inr (Some mesh)
             else if \<not> dtAlloc e (size_t_of_int dataSize) then Inr (Some mesh)
             else
               (case memcpy_from content pos1 (size_t_of_int dataSize) of
                  Inl f \<Rightarrow> Inl f
                | Inr data \<Rightarrow>
                    let pos2 = (pos1 + size_t_of_int dataSize) mod 2 ^ 64
                    in if pos2 > length content then Inr None
                       else read_tiles e content n pos2
                              (mesh\<lparr>mesh_tiles := mesh_tiles mesh @ [(tileRef, data)]\<rparr>)))"

declare read_tiles.simps [simp del]

text \<open>Modelled from the spec: the agent pool is code of the engine
  (\<^verbatim>\<open>dtCrowd\<close>), which is not among the sources. A slot that holds no agent.\<close>

definition free_agent :: dtCrowdAgent where
  "free_agent = \<lparr>active = False, npos = (0, 0, 0), vel = (0, 0, 0), dvel = (0, 0, 0),
     agent_params = \<lparr>radius = 0, height = 0, maxAcceleration = 0, maxSpeed = 0,
       collisionQueryRange = 0, pathOptimizationRange = 0, separationWeight = 0,
       updateFlags = 0, obstacleAvoidanceType = 0\<rparr>,
     targetRef = 0, targetPos = (0, 0, 0)\<rparr>"

text \<open>Modelled from the spec: \<^verbatim>\<open>dtCrowd::init\<close>, called as
  \<^verbatim>\<open>_crowd->init(MAX_AGENTS, AGENT_RADIUS, _navMesh)\<close>, is missing. Section 4.3:
  initialisation allocates a fixed-capacity agent pool sized for a uniform
  agent radius; every slot starts free.\<close>

definition dtCrowd_init :: "engine \<Rightarrow> nat \<Rightarrow> real \<Rightarrow> dtNavMesh option \<Rightarrow> dtCrowd" where
  "dtCrowd_init e n r mesh =
     \<lparr>maxAgents = n, maxAgentRadius = r, crowd_mesh = mesh, agents = replicate n free_agent,
      filter0 = defaultFilter e, obstacleParams = replicate 4 (defaultObstacleParams e)\<rparr>"

text \<open>\<^verbatim>\<open>Navigation::CreateCrowd\<close>.\<close>

definition CreateCrowd :: "engine \<Rightarrow> Navigation \<Rightarrow> Navigation" where
  "CreateCrowd e s =
     (if crowd s \<noteq> None then s
      else
        let c0 = dtCrowd_init e MAX_AGENTS AGENT_RADIUS (navMesh s);
            c1 = c0\<lparr>filter0 := (filter0 c0)\<lparr>excludeFlags := SAMPLE_POLYFLAGS_DISABLED e\<rparr>\<rparr>;
            params = obstacleParams c1 ! 0;
            low = params\<lparr>velBias := 1 / 2, adaptiveDivs := 5, adaptiveRings := 2, adaptiveDepth := 1\<rparr>;
            c2 = c1\<lparr>obstacleParams := (obstacleParams c1)[0 := low]\<rparr>;
            medium = low\<lparr>velBias := 1 / 2, adaptiveDivs := 5, adaptiveRings := 2, adaptiveDepth := 2\<rparr>;
            c3 = c2\<lparr>obstacleParams := (obstacleParams c2)[1 := medium]\<rparr>;
            good = medium\<lparr>velBias := 1 / 2, adaptiveDivs := 7, adaptiveRings := 2, adaptiveDepth := 3\<rparr>;
            c4 = c3\<lparr>obstacleParams := (obstacleParams c3)[2 := good]\<rparr>;
            high = good\<lparr>velBias := 1 / 2, adaptiveDivs := 7, adaptiveRings := 3, adaptiveDepth := 3\<rparr>;
            c5 = c4\<lparr>obstacleParams := (obstacleParams c4)[3 := high]\<rparr>
        in s\<lparr>crowd := Some c5\<rparr>)"

text \<open>\<^verbatim>\<open>Navigation::Load(const std::vector<uint8_t> content)\<close>. The result is
  the fault of a copy past the end of the buffer, or the returned \<^verbatim>\<open>bool\<close>
  with the object's new state. The two operands of the \<^verbatim>\<open>||\<close> that checks magic
  and version are tested one after the other.\<close>

definition Load :: "engine \<Rightarrow> Navigation \<Rightarrow> byte list \<Rightarrow> fault + (bool \<times> Navigation)" where
  "Load e s content =
     (case memcpy_from content 0 (sizeof_header e) of
        Inl f \<Rightarrow> Inl f
      | Inr header \<Rightarrow>
          let magic = le_int32 (take 4 header);
              version = le_int32 (take 4 (drop 4 header));
              numTiles = le_int32 (take 4 (drop 8 header));
              params = drop 12 header;
              pos = sizeof_header e
          in if magic \<noteq> NAVMESHSET_MAGIC then Inr (False, s)
             else if version \<noteq> NAVMESHSET_VERSION then Inr (False, s)
             else if dtStatusFailed e (navMesh_init e params) then Inr (False, s)
             else
               (case read_tiles e content (nat (sint numTiles)) pos
                       \<lparr>mesh_params = params, mesh_tiles = []\<rparr> of
                  Inl f \<Rightarrow> Inl f
                | Inr None \<Rightarrow> Inr (False, s)
                | Inr (Some mesh) \<Rightarrow>
                    let s1 = s\<lparr>navMesh := Some mesh\<rparr>;
                        s2 = s1\<lparr>navQuery := Some \<lparr>query_mesh = mesh, query_maxNodes = 2048\<rparr>\<rparr>;
                        s3 = CreateCrowd e s2;
                        s4 = s3\<lparr>binaryMesh := content\<rparr>
                    in Inr (True, s4)))"

section \<open>Path queries\<close>

text \<open>The filter used when the caller passes \<^verbatim>\<open>nullptr\<close>.\<close>

definition filter2 :: "engine \<Rightarrow> dtQueryFilter" where
  "filter2 e = \<lparr>includeFlags = SAMPLE_POLYFLAGS_ALL e XOR SAMPLE_POLYFLAGS_DISABLED e,
                 excludeFlags = 0\<rparr>"

definition m_polyPickExt :: vec3 where
  "m_polyPickExt = (2, 4, 2)"

text \<open>\<^verbatim>\<open>Navigation::GetPath\<close>. The argument \<open>path\<close> is the caller's vector, which
  the function leaves as it is on every \<^verbatim>\<open>return false\<close>.\<close>

definition GetPath :: "engine \<Rightarrow> Navigation \<Rightarrow> Location \<Rightarrow> Location \<Rightarrow> dtQueryFilter option
    \<Rightarrow> Location list \<Rightarrow> fault + (bool \<times> Location list)" where
  "GetPath e s from to filter_arg path =
     (if length (binaryMesh s) = 0 then Inr (False, path)
      else
        let flt = (case filter_arg of None \<Rightarrow> filter2 e | Some f \<Rightarrow> f);
            m_spos = (loc_x from, loc_z from, loc_y from);
            m_epos = (loc_x to, loc_z to, loc_y to)
        in case navQuery s of
             None \<Rightarrow> Inl NullPointer
           | Some q \<Rightarrow>
               let m_startRef = findNearestPoly e q m_spos m_polyPickExt flt;
                   m_endRef = findNearestPoly e q m_epos m_polyPickExt flt
               in if m_startRef = 0 \<or> m_endRef = 0 then Inr (False, path)
                  else
                    let m_polys = findPath e q m_startRef m_endRef m_spos m_epos flt MAX_POLYS
                    in if length m_polys = 0 then Inr (False, path)
                       else
                         let epos = (if last m_polys \<noteq> m_endRef
                                     then closestPointOnPoly e q (last m_polys) m_epos m_epos
                                     else m_epos);
                             m_straightPath = findStraightPath e q m_spos epos m_polys MAX_POLYS 0
                         in Inr (True, map (\<lambda>(p0, p1, p2). \<lparr>loc_x = p0, loc_y = p2, loc_z = p1\<rparr>)
                                        m_straightPath))"

section \<open>Walkers\<close>

text \<open>Modelled from the spec: \<^verbatim>\<open>dtCrowd::addAgent\<close> is missing. Section 4.3:
  adding an agent yields a slot index and fails with the invalid-slot
  sentinel when the pool is at capacity; section 3: a slot is not reused while
  its walker is alive. The slot taken is the first free one.\<close>

fun free_slot :: "dtCrowdAgent list \<Rightarrow> nat option" where
  "free_slot [] = None"
| "free_slot (a # as) = (if active a then map_option Suc (free_slot as) else Some 0)"

definition addAgent :: "dtCrowd \<Rightarrow> vec3 \<Rightarrow> dtCrowdAgentParams \<Rightarrow> int \<times> dtCrowd" where
  "addAgent c pos params =
     (case free_slot (agents c) of
        None \<Rightarrow> (- 1, c)
      | Some idx \<Rightarrow>
          (int idx, c\<lparr>agents := (agents c)[idx := \<lparr>active = True, npos = pos, vel = (0, 0, 0),
             dvel = (0, 0, 0), agent_params = params, targetRef = 0, targetPos = pos\<rparr>]\<rparr>))"

text \<open>Modelled from the spec: \<^verbatim>\<open>dtCrowd::getAgent\<close> is missing. Section 6 lists
  it among the operations of the pool: the agent record of a slot, a null
  pointer for an index outside the pool.\<close>

definition getAgent :: "dtCrowd \<Rightarrow> int \<Rightarrow> dtCrowdAgent option" where
  "getAgent c idx =
     (if 0 \<le> idx \<and> nat idx < length (agents c) then Some (agents c ! nat idx) else None)"

text \<open>Modelled from the spec: \<^verbatim>\<open>dtCrowd::requestMoveTarget\<close> is missing.
  Section 4.3: the request fails when no polygon was found for the target, and
  otherwise commits the new target of the slot.\<close>

definition requestMoveTarget :: "dtCrowd \<Rightarrow> int \<Rightarrow> dtPolyRef \<Rightarrow> vec3 \<Rightarrow> bool \<times> dtCrowd" where
  "requestMoveTarget c idx ref pos =
     (if idx < 0 \<or> nat idx \<ge> length (agents c) then (False, c)
      else if ref = 0 then (False, c)
      else (True, c\<lparr>agents := (agents c)[nat idx :=
              (agents c ! nat idx)\<lparr>targetRef := ref, targetPos := pos\<rparr>]\<rparr>))"

text \<open>\<^verbatim>\<open>Navigation::AddWalker\<close>.\<close>

definition AddWalker :: "engine \<Rightarrow> Navigation \<Rightarrow> ActorId \<Rightarrow> Location \<Rightarrow> real \<Rightarrow> bool \<times> Navigation" where
  "AddWalker e s aid from base_offset =
     (case crowd s of
        None \<Rightarrow> (False, s)
      | Some c \<Rightarrow>
          let params = \<lparr>radius = AGENT_RADIUS, height = base_offset * 2, maxAcceleration = 8,
                maxSpeed = 147 / 100, collisionQueryRange = AGENT_RADIUS * 12,
                pathOptimizationRange = AGENT_RADIUS * 30, separationWeight = 1 / 2,
                updateFlags = 0 OR DT_CROWD_ANTICIPATE_TURNS e OR DT_CROWD_OPTIMIZE_VIS e
                  OR DT_CROWD_OPTIMIZE_TOPO e OR DT_CROWD_OBSTACLE_AVOIDANCE e
                  OR DT_CROWD_SEPARATION e,
                obstacleAvoidanceType = 3\<rparr>;
              PointFrom = (loc_x from, loc_z from, loc_y from);
              (index, c') = addAgent c PointFrom params
          in if index = - 1 then (False, s\<lparr>crowd := Some c'\<rparr>)
             else (True, s\<lparr>crowd := Some c',
                            mappedId := (mappedId s)(aid \<mapsto> index),
                            baseHeight := (baseHeight s)(aid \<mapsto> base_offset),
                            yaw_walkers := (yaw_walkers s)(aid \<mapsto> 0)\<rparr>))"

text \<open>\<^verbatim>\<open>Navigation::SetWalkerTargetIndex\<close> and \<^verbatim>\<open>SetWalkerTarget\<close>.\<close>

definition SetWalkerTargetIndex :: "engine \<Rightarrow> Navigation \<Rightarrow> int \<Rightarrow> Location
    \<Rightarrow> fault + (bool \<times> Navigation)" where
  "SetWalkerTargetIndex e s index to =
     (if index = - 1 then Inr (False, s)
      else
        let pointTo = (loc_x to, loc_z to, loc_y to)
        in case crowd s of
             None \<Rightarrow> Inl NullPointer
           | Some c \<Rightarrow>
               (case navQuery s of
                  None \<Rightarrow> Inl NullPointer
                | Some q \<Rightarrow>
                    let targetRef = findNearestPoly e q pointTo (queryHalfExtents e) (filter0 c)
                    in if targetRef = 0 then Inr (False, s)
                       else
                         let (ok, c') = requestMoveTarget c index targetRef pointTo
                         in Inr (ok, s\<lparr>crowd := Some c'\<rparr>)))"

definition SetWalkerTarget :: "engine \<Rightarrow> Navigation \<Rightarrow> ActorId \<Rightarrow> Location
    \<Rightarrow> fault + (bool \<times> Navigation)" where
  "SetWalkerTarget e s aid to =
     (case mappedId s aid of
        None \<Rightarrow> Inr (False, s)
      | Some index \<Rightarrow> SetWalkerTargetIndex e s index to)"

text \<open>\<^verbatim>\<open>Navigation::GetWalkerTransform\<close>. The argument \<open>trans0\<close> is the caller's
  transform, of which the function writes the location and the yaw.
  \<^verbatim>\<open>yaw_walkers[id]\<close> reads 0 for an identity that has no entry. The arithmetic
  of lines 398 to 404 is written with the operations of \<open>fp\<close>, one for each
  operation of the source, its literals and its cast of \<^verbatim>\<open>_delta_seconds\<close>
  converted by \<open>to_float\<close>.\<close>

definition GetWalkerTransform :: "float_ops \<Rightarrow> Navigation \<Rightarrow> ActorId \<Rightarrow> Transform
    \<Rightarrow> fault + (bool \<times> Transform \<times> Navigation)" where
  "GetWalkerTransform fp s aid trans0 =
     (case mappedId s aid of
        None \<Rightarrow> Inr (False, trans0, s)
      | Some index \<Rightarrow>
          if index = - 1 then Inr (False, trans0, s)
          else
            (case crowd s of
               None \<Rightarrow> Inl NullPointer
             | Some c \<Rightarrow>
                 (case getAgent c index of
                    None \<Rightarrow> Inl NullPointer
                  | Some agent \<Rightarrow>
                      if \<not> active agent then Inr (False, trans0, s)
                      else
                        let baseOffset = (case baseHeight s aid of Some b \<Rightarrow> b | None \<Rightarrow> 0);
                            (n0, n1, n2) = npos agent;
                            (d0, d1, d2) = dvel agent;
                            loc = \<lparr>loc_x = n0, loc_y = n2,
                                   loc_z = fsub fp (fadd fp n1 baseOffset) (to_float fp (8 / 100))\<rparr>;
                            yaw_a = fmul fp (atan2f fp d2 d0)
                                      (fdiv fp (to_float fp 180) (to_float fp (M_PI fp)));
                            yaw_w = (case yaw_walkers s aid of Some v \<Rightarrow> v | None \<Rightarrow> 0);
                            shortest = fsub fp
                                         (fmod fp (fadd fp (fsub fp yaw_a yaw_w) (to_float fp 540))
                                            (to_float fp 360))
                                         (to_float fp 180);
                            rotation_speed = to_float fp 4;
                            new_yaw = fadd fp yaw_w
                                        (fmul fp (fmul fp shortest rotation_speed)
                                           (to_float fp (delta_seconds s)));
                            trans' = trans0\<lparr>location := loc,
                                            rotation := (rotation trans0)\<lparr>yaw := new_yaw\<rparr>\<rparr>
                        in Inr (True, trans', s\<lparr>yaw_walkers := (yaw_walkers s)(aid \<mapsto> new_yaw)\<rparr>))))"

text \<open>\<^verbatim>\<open>Navigation::GetWalkerSpeed\<close>. Its \<^verbatim>\<open>return false\<close> is the \<^verbatim>\<open>float\<close> 0.\<close>

definition GetWalkerSpeed :: "Navigation \<Rightarrow> ActorId \<Rightarrow> fault + real" where
  "GetWalkerSpeed s aid =
     (case mappedId s aid of
        None \<Rightarrow> Inr 0
      | Some index \<Rightarrow>
          if index = - 1 then Inr 0
          else
            (case crowd s of
               None \<Rightarrow> Inl NullPointer
             | Some c \<Rightarrow>
                 (case getAgent c index of
                    None \<Rightarrow> Inl NullPointer
                  | Some agent \<Rightarrow>
                      let (v0, v1, v2) = vel agent
                      in Inr (sqrt (v0 * v0 + v1 * v1 + v2 * v2)))))"

section \<open>Random locations\<close>

text \<open>The \<^verbatim>\<open>do ... while (1)\<close> loop of \<^verbatim>\<open>GetRandomLocationWithoutLock\<close>. It has
  no bound on the number of rounds, so a run that never leaves the loop is
  the value \<open>None\<close>.\<close>

partial_function (option) random_loop :: "engine \<Rightarrow> dtNavMeshQuery \<Rightarrow> dtQueryFilter \<Rightarrow> real
    \<Rightarrow> Location \<Rightarrow> rng \<Rightarrow> (Location \<times> rng) option" where
  "random_loop e q flt maxHeight loc r =
     (case findRandomPoint e q flt r of
        (status, randomRef, point, r') \<Rightarrow>
          if status = DT_SUCCESS e then
            (case point of
               (p0, p1, p2) \<Rightarrow>
                 let loc' = loc\<lparr>loc_x := p0, loc_y := p2, loc_z := p1\<rparr>
                 in if maxHeight = - 1 \<or> (maxHeight \<ge> 0 \<and> loc_z loc' \<le> maxHeight)
                    then Some (loc', r')
                    else random_loop e q flt maxHeight loc' r')
          else random_loop e q flt maxHeight loc r')"

definition GetRandomLocationWithoutLock :: "engine \<Rightarrow> Navigation \<Rightarrow> Location \<Rightarrow> real
    \<Rightarrow> dtQueryFilter option \<Rightarrow> rng \<Rightarrow> (fault + (bool \<times> Location \<times> rng)) option" where
  "GetRandomLocationWithoutLock e s loc maxHeight filter_arg r =
     (case navQuery s of
        None \<Rightarrow> Some (Inl NullPointer)
      | Some q \<Rightarrow>
          let flt = (case filter_arg of None \<Rightarrow> filter2 e | Some f \<Rightarrow> f)
          in map_option (\<lambda>(l, r'). Inr (True, l, r')) (random_loop e q flt maxHeight loc r))"

definition GetRandomLocation :: "engine \<Rightarrow> Navigation \<Rightarrow> Location \<Rightarrow> real
    \<Rightarrow> dtQueryFilter option \<Rightarrow> rng \<Rightarrow> (fault + (bool \<times> Location \<times> rng)) option" where
  "GetRandomLocation e s loc maxHeight filter_arg r =
     GetRandomLocationWithoutLock e s loc maxHeight filter_arg r"

section \<open>Notions used to state the properties\<close>

subsection \<open>The coordinate translation\<close>

text \<open>The translation between the host's convention and the engine's, as the
  design states it: host \<open>(x, y, z)\<close> is engine \<open>(x, z, y)\<close>, and back.\<close>

definition to_engine :: "Location \<Rightarrow> vec3" where
  "to_engine l = (loc_x l, loc_z l, loc_y l)"

definition to_host :: "vec3 \<Rightarrow> Location" where
  "to_host v = (case v of (a, b, c) \<Rightarrow> \<lparr>loc_x = a, loc_y = c, loc_z = b\<rparr>)"

text \<open>The path query as the design describes it: the engine computes the
  waypoints from endpoints in engine space (nearest polygons, corridor, clamp
  of a partial corridor, straight path), and the translation is applied once
  to each endpoint and once to each waypoint.\<close>

definition engine_waypoints :: "engine \<Rightarrow> dtNavMeshQuery \<Rightarrow> dtQueryFilter \<Rightarrow> vec3 \<Rightarrow> vec3
    \<Rightarrow> vec3 list option" where
  "engine_waypoints e q flt spos epos =
     (let startRef = findNearestPoly e q spos m_polyPickExt flt;
          endRef = findNearestPoly e q epos m_polyPickExt flt
      in if startRef = 0 \<or> endRef = 0 then None
         else
           let polys = findPath e q startRef endRef spos epos flt MAX_POLYS
           in if polys = [] then None
              else Some (findStraightPath e q spos
                     (if last polys \<noteq> endRef then closestPointOnPoly e q (last polys) epos epos
                      else epos)
                     polys MAX_POLYS 0))"

definition GetPath_translated :: "engine \<Rightarrow> Navigation \<Rightarrow> Location \<Rightarrow> Location
    \<Rightarrow> dtQueryFilter option \<Rightarrow> Location list \<Rightarrow> fault + (bool \<times> Location list)" where
  "GetPath_translated e s from to filter_arg path =
     (if binaryMesh s = [] then Inr (False, path)
      else case navQuery s of
             None \<Rightarrow> Inl NullPointer
           | Some q \<Rightarrow>
               (case engine_waypoints e q (case filter_arg of None \<Rightarrow> filter2 e | Some f \<Rightarrow> f)
                       (to_engine from) (to_engine to) of
                  None \<Rightarrow> Inr (False, path)
                | Some ws \<Rightarrow> Inr (True, map to_host ws)))"

subsection \<open>The sequence of samples of the random-point loop\<close>

text \<open>The generator state before the \<open>k\<close>-th call of the sampler, the result of
  that call, and the test that lets the loop return a sample.\<close>

fun rng_after :: "engine \<Rightarrow> dtNavMeshQuery \<Rightarrow> dtQueryFilter \<Rightarrow> rng \<Rightarrow> nat \<Rightarrow> rng" where
  "rng_after e q flt r 0 = r"
| "rng_after e q flt r (Suc n) = rng_after e q flt (snd (snd (snd (findRandomPoint e q flt r)))) n"

definition sample :: "engine \<Rightarrow> dtNavMeshQuery \<Rightarrow> dtQueryFilter \<Rightarrow> rng \<Rightarrow> nat
    \<Rightarrow> dtStatus \<times> dtPolyRef \<times> vec3 \<times> rng" where
  "sample e q flt r k = findRandomPoint e q flt (rng_after e q flt r k)"

definition accepted :: "engine \<Rightarrow> real \<Rightarrow> dtStatus \<times> dtPolyRef \<times> vec3 \<times> rng \<Rightarrow> bool" where
  "accepted e m smp =
     (case smp of (st, ref, (p0, p1, p2), r') \<Rightarrow>
        st = DT_SUCCESS e \<and> (m = - 1 \<or> (0 \<le> m \<and> p1 \<le> m)))"

definition first_accepted :: "engine \<Rightarrow> dtNavMeshQuery \<Rightarrow> dtQueryFilter \<Rightarrow> real \<Rightarrow> rng \<Rightarrow> nat
    \<Rightarrow> bool" where
  "first_accepted e q flt m r k =
     (accepted e m (sample e q flt r k) \<and> (\<forall>j<k. \<not> accepted e m (sample e q flt r j)))"

subsection \<open>Headings\<close>

text \<open>The heading stored for a walker (0 when there is none), and the
  single-precision expressions of lines 401 to 404 of \<^verbatim>\<open>GetWalkerTransform\<close>:
  the heading of an agent's desired velocity in degrees, the signed shortest
  rotation from a heading to a target, and the heading moved towards the
  target by that rotation times the rotation speed 4 times the delta time.\<close>

definition stored_yaw :: "Navigation \<Rightarrow> ActorId \<Rightarrow> real" where
  "stored_yaw s aid = (case yaw_walkers s aid of Some v \<Rightarrow> v | None \<Rightarrow> 0)"

definition velocity_yaw :: "float_ops \<Rightarrow> dtCrowdAgent \<Rightarrow> real" where
  "velocity_yaw fp a =
     (case dvel a of (d0, d1, d2) \<Rightarrow>
        fmul fp (atan2f fp d2 d0) (fdiv fp (to_float fp 180) (to_float fp (M_PI fp))))"

definition shortest_angle :: "float_ops \<Rightarrow> real \<Rightarrow> real \<Rightarrow> real" where
  "shortest_angle fp target cur =
     fsub fp (fmod fp (fadd fp (fsub fp target cur) (to_float fp 540)) (to_float fp 360))
       (to_float fp 180)"

definition smoothed_yaw :: "float_ops \<Rightarrow> real \<Rightarrow> real \<Rightarrow> real \<Rightarrow> real" where
  "smoothed_yaw fp target cur dt =
     fadd fp cur (fmul fp (fmul fp (shortest_angle fp target cur) (to_float fp 4)) (to_float fp dt))"

text \<open>Two successive calls of \<^verbatim>\<open>GetWalkerTransform\<close> for one walker, the second
  on the state the first leaves: the two results and yaws.\<close>

definition GetWalkerTransform_twice :: "float_ops \<Rightarrow> Navigation \<Rightarrow> ActorId \<Rightarrow> Transform
    \<Rightarrow> fault + ((bool \<times> real) \<times> (bool \<times> real))" where
  "GetWalkerTransform_twice fp s aid trans0 =
     (case GetWalkerTransform fp s aid trans0 of
        Inl f \<Rightarrow> Inl f
      | Inr (ok1, trans1, s1) \<Rightarrow>
          (case GetWalkerTransform fp s1 aid trans0 of
             Inl f \<Rightarrow> Inl f
           | Inr (ok2, trans2, s2) \<Rightarrow>
               Inr ((ok1, yaw (rotation trans1)), (ok2, yaw (rotation trans2)))))"

text \<open>The agent record that \<open>addAgent\<close> writes into a slot.\<close>

definition new_agent :: "vec3 \<Rightarrow> dtCrowdAgentParams \<Rightarrow> dtCrowdAgent" where
  "new_agent pos params = \<lparr>active = True, npos = pos, vel = (0, 0, 0),
             dvel = (0, 0, 0), agent_params = params, targetRef = 0, targetPos = pos\<rparr>"

section \<open>The buffer format\<close>

text \<open>
  The layout of a navigation-mesh buffer as the external interface gives it
  (its writer is not part of the sources): a header of magic, version, tile
  count and surface parameters, then one record per tile, a tile header of
  reference and data size followed by the data; all integers least
  significant byte first. These functions build the buffers the statements
  about \<^verbatim>\<open>Load\<close> speak of.
\<close>

fun le_bytes :: "nat \<Rightarrow> nat \<Rightarrow> byte list" where
  "le_bytes 0 v = []"
| "le_bytes (Suc n) v = word_of_nat (v mod 256) # le_bytes n (v div 256)"

definition header_bytes :: "nat \<Rightarrow> byte list \<Rightarrow> byte list" where
  "header_bytes numTiles params =
     le_bytes 4 0x4D534554 @ le_bytes 4 1 @ le_bytes 4 numTiles @ params"

definition tileHeader_bytes :: "engine \<Rightarrow> dtTileRef \<Rightarrow> nat \<Rightarrow> byte list" where
  "tileHeader_bytes e ref dataSize = le_bytes (sizeof_dtTileRef e) ref @ le_bytes 4 dataSize"

definition tile_record :: "engine \<Rightarrow> dtTileRef \<times> byte list \<Rightarrow> byte list" where
  "tile_record e t = tileHeader_bytes e (fst t) (length (snd t)) @ snd t"

text \<open>A tile that the loop adds: reference and size are not zero and fit
  their fields, and the allocation of its data succeeds. A header that passes
  the checks before the loop.\<close>

definition valid_tile :: "engine \<Rightarrow> dtTileRef \<times> byte list \<Rightarrow> bool" where
  "valid_tile e t =
     (0 < fst t \<and> fst t < 256 ^ sizeof_dtTileRef e \<and> 0 < length (snd t) \<and>
      length (snd t) < 2 ^ 31 \<and> dtAlloc e (length (snd t)))"

definition valid_header :: "engine \<Rightarrow> nat \<Rightarrow> byte list \<Rightarrow> bool" where
  "valid_header e numTiles params =
     (numTiles < 2 ^ 31 \<and> length params = sizeof_dtNavMeshParams e \<and>
      \<not> dtStatusFailed e (navMesh_init e params))"

text \<open>The state that a successful \<^verbatim>\<open>Load\<close> of \<open>content\<close> leaves when the loop
  has built \<open>mesh\<close>.\<close>

definition install :: "engine \<Rightarrow> Navigation \<Rightarrow> dtNavMesh \<Rightarrow> byte list \<Rightarrow> Navigation" where
  "install e s mesh content =
     (CreateCrowd e (s\<lparr>navMesh := Some mesh,
                        navQuery := Some \<lparr>query_mesh = mesh, query_maxNodes = 2048\<rparr>\<rparr>))
       \<lparr>binaryMesh := content\<rparr>"

section \<open>Sequences of walkers\<close>

text \<open>\<^verbatim>\<open>AddWalker\<close> called for each entry of a list in turn: the results of the
  calls and the final state.\<close>

fun AddWalkers :: "engine \<Rightarrow> Navigation \<Rightarrow> (ActorId \<times> Location \<times> real) list
    \<Rightarrow> bool list \<times> Navigation" where
  "AddWalkers e s [] = ([], s)"
| "AddWalkers e s (w # ws) =
     (case w of (aid, from, off) \<Rightarrow>
        (case AddWalker e s aid from off of (ok, s1) \<Rightarrow>
           (case AddWalkers e s1 ws of (oks, s2) \<Rightarrow> (ok # oks, s2))))"

text \<open>The pool has \<open>N\<close> slots of which exactly the first \<open>k\<close> are taken; and the
  agent in a slot of the object's crowd.\<close>

definition pool_filled :: "nat \<Rightarrow> nat \<Rightarrow> Navigation \<Rightarrow> bool" where
  "pool_filled N k s =
     (case crowd s of
        None \<Rightarrow> False
      | Some c \<Rightarrow> length (agents c) = N \<and> (\<forall>i<N. active (agents c ! i) = (i < k)))"

definition slot_agent :: "Navigation \<Rightarrow> nat \<Rightarrow> dtCrowdAgent option" where
  "slot_agent s i = (case crowd s of None \<Rightarrow> None | Some c \<Rightarrow> getAgent c (int i))"

section \<open>Single-precision arithmetic\<close>

text \<open>
  An instance of the floating-point operations: IEEE 754 binary32 with
  rounding to nearest, ties to even. A real number is rounded to the nearest
  multiple of the unit in the last place of its binade (24 significant bits,
  least exponent -126). Infinities and NaN are not represented, so the
  instance is the machine's arithmetic on every operation whose exact result
  lies within the range of \<^verbatim>\<open>float\<close>. \<^verbatim>\<open>atan2f\<close> and \<^verbatim>\<open>fmod\<close> are the rounded
  values of the angle of the point \<open>(x, y)\<close> in \<open>(-\<pi>, \<pi>]\<close> and of the remainder
  of the division truncated towards zero.
\<close>

definition round_even :: "real \<Rightarrow> int" where
  "round_even y =
     (let f = \<lfloor>y\<rfloor>; d = y - of_int f
      in if d < 1 / 2 then f else if d > 1 / 2 then f + 1 else if even f then f else f + 1)"

definition exponent32 :: "real \<Rightarrow> int" where
  "exponent32 x = max \<lfloor>log 2 \<bar>x\<bar>\<rfloor> (- 126)"

definition ulp32 :: "real \<Rightarrow> real" where
  "ulp32 x = 2 powi (exponent32 x - 23)"

definition round32 :: "real \<Rightarrow> real" where
  "round32 x = of_int (round_even (x / ulp32 x)) * ulp32 x"

definition atan2_real :: "real \<Rightarrow> real \<Rightarrow> real" where
  "atan2_real y x =
     (if x > 0 then arctan (y / x)
      else if x < 0 \<and> y \<ge> 0 then arctan (y / x) + pi
      else if x < 0 then arctan (y / x) - pi
      else if y > 0 then pi / 2
      else if y < 0 then - pi / 2
      else 0)"

definition fmod_real :: "real \<Rightarrow> real \<Rightarrow> real" where
  "fmod_real a b =
     (let q = a / b;
          t = (if q \<ge> 0 then \<lfloor>q\<rfloor> else \<lceil>q\<rceil>)
      in a - b * of_int t)"

definition ieee_single :: float_ops where
  "ieee_single =
     \<lparr>fadd = (\<lambda>a b. round32 (a + b)), fsub = (\<lambda>a b. round32 (a - b)),
      fmul = (\<lambda>a b. round32 (a * b)), fdiv = (\<lambda>a b. round32 (a / b)),
      atan2f = (\<lambda>y x. round32 (atan2_real y x)), fmod = (\<lambda>a b. round32 (fmod_real a b)),
      to_float = round32, M_PI = pi\<rparr>"

section \<open>Concrete inputs\<close>

text \<open>An engine with the type sizes of a 64-bit build (28 bytes of surface
  parameters, 8-byte tile references) whose queries are constant: every point
  is on polygon 1, every corridor is \<open>[1]\<close>, the straight path of a corridor has
  no waypoint, and the \<open>n\<close>-th random sample has height \<open>3 - n\<close>.\<close>

definition example_engine :: engine where
  "example_engine =
     \<lparr>sizeof_dtNavMeshParams = 28, sizeof_dtTileRef = 8, DT_SUCCESS = 2 ^ 30,
      dtStatusFailed = (\<lambda>st. st \<ge> 2 ^ 31),
      SAMPLE_POLYFLAGS_ALL = 0xFFFF, SAMPLE_POLYFLAGS_DISABLED = 0x10,
      navMesh_init = (\<lambda>ps. 2 ^ 30), dtAlloc = (\<lambda>n. n < 2 ^ 31),
      findNearestPoly = (\<lambda>q p ext flt. 1),
      findPath = (\<lambda>q a b p1 p2 flt n. [1]),
      closestPointOnPoly = (\<lambda>q r p old. p),
      findStraightPath = (\<lambda>q p1 p2 polys n opts. []),
      findRandomPoint = (\<lambda>q flt r. (2 ^ 30, 1, (0, 3 - real r, 0), Suc r)),
      defaultObstacleParams = \<lparr>velBias = 2 / 5, adaptiveDivs = 7, adaptiveRings = 2,
        adaptiveDepth = 5\<rparr>,
      defaultFilter = \<lparr>includeFlags = 0xFFFF, excludeFlags = 0\<rparr>,
      queryHalfExtents = (3 / 5, 9 / 20, 3 / 5),
      DT_CROWD_ANTICIPATE_TURNS = 1, DT_CROWD_OPTIMIZE_VIS = 8, DT_CROWD_OPTIMIZE_TOPO = 16,
      DT_CROWD_OBSTACLE_AVOIDANCE = 2, DT_CROWD_SEPARATION = 4\<rparr>"

text \<open>A \<^verbatim>\<open>Navigation\<close> object on which nothing has been loaded.\<close>

definition Navigation_new :: Navigation where
  "Navigation_new = \<lparr>navMesh = None, navQuery = None, crowd = None, binaryMesh = [],
     mappedId = Map.empty, baseHeight = Map.empty, yaw_walkers = Map.empty, delta_seconds = 0\<rparr>"

text \<open>A file header with magic \<^verbatim>\<open>MSET\<close>, version 1, \<open>k\<close> tiles declared and 28
  parameter bytes; and a buffer of that header with one tile of four bytes.\<close>

definition example_header :: "byte \<Rightarrow> byte list" where
  "example_header k = [0x54, 0x45, 0x53, 0x4D, 1, 0, 0, 0, k, 0, 0, 0,
     0, 0, 0, 0, 0, 0, 0, 0, 0, 0, 0, 0, 0, 0, 0, 0, 0, 0, 0, 0, 0, 0, 0, 0, 0, 0, 0, 0]"

definition example_content :: "byte list" where
  "example_content = example_header 1 @ [1, 0, 0, 0, 0, 0, 0, 0, 4, 0, 0, 0, 9, 9, 9, 9]"

definition example_mesh :: dtNavMesh where
  "example_mesh = \<lparr>mesh_params = [0, 0, 0, 0, 0, 0, 0, 0, 0, 0, 0, 0, 0, 0, 0, 0, 0, 0, 0, 0,
     0, 0, 0, 0, 0, 0, 0, 0], mesh_tiles = [(1, [9, 9, 9, 9])]\<rparr>"

definition example_loaded :: Navigation where
  "example_loaded = snd (projr (Load example_engine Navigation_new example_content))"

definition origin :: Location where
  "origin = \<lparr>loc_x = 0, loc_y = 0, loc_z = 0\<rparr>"

text \<open>The loaded object after walker 7 was added at the origin and a tick of
  1/20 s has passed; and the same object with the heading 45 stored for that
  walker and a last tick of 1 s.\<close>

definition example_walking :: Navigation where
  "example_walking =
     (snd (AddWalker example_engine example_loaded 7 origin 1))\<lparr>delta_seconds := 1 / 20\<rparr>"

definition example_heading :: Navigation where
  "example_heading = example_walking\<lparr>yaw_walkers := (yaw_walkers example_walking)(7 \<mapsto> 45),
     delta_seconds := 1\<rparr>"

definition example_trans :: Transform where
  "example_trans = \<lparr>location = origin, rotation = \<lparr>pitch = 0, yaw = 90, roll = 0\<rparr>\<rparr>"

text \<open>The 28 parameter bytes and the tile record of the example buffer, and
  501 walkers with the identities 0 to 500.\<close>

definition example_params :: "byte list" where
  "example_params = [0, 0, 0, 0, 0, 0, 0, 0, 0, 0, 0, 0, 0, 0, 0, 0, 0, 0, 0, 0,
     0, 0, 0, 0, 0, 0, 0, 0]"

definition example_tile :: "byte list" where
  "example_tile = [1, 0, 0, 0, 0, 0, 0, 0, 4, 0, 0, 0, 9, 9, 9, 9]"

definition example_walkers :: "(ActorId \<times> Location \<times> real) list" where
  "example_walkers = map (\<lambda>i. (i, origin, 1)) [0..<501]"

section \<open>Facts about the concrete inputs\<close>

lemmas example_defs = example_engine_def example_header_def example_content_def
  Navigation_new_def origin_def example_trans_def

lemmas Load_defs = Load_def read_tiles.simps memcpy_from_def sizeof_header_def
  sizeof_tileHeader_def le_int32_def NAVMESHSET_MAGIC_def NAVMESHSET_VERSION_def size_t_of_int_def

lemma example_Load:
  "Load example_engine Navigation_new example_content = Inr (True, example_loaded)"
  by (simp add: example_loaded_def Load_defs example_defs Let_def)

lemma example_loaded_navQuery:
  "navQuery example_loaded = Some \<lparr>query_mesh = example_mesh, query_maxNodes = 2048\<rparr>"
  by (simp add: example_loaded_def Load_defs example_defs CreateCrowd_def Let_def example_mesh_def)

lemma example_loaded_binaryMesh: "binaryMesh example_loaded = example_content"
  by (simp add: example_loaded_def Load_defs example_defs CreateCrowd_def Let_def)

lemma example_loaded_mappedId: "mappedId example_loaded = Map.empty"
  by (simp add: example_loaded_def Load_defs example_defs CreateCrowd_def Let_def)

lemma example_loaded_agents:
  "\<exists>c. crowd example_loaded = Some c \<and> agents c = replicate MAX_AGENTS free_agent"
  by (simp add: example_loaded_def Load_defs example_defs CreateCrowd_def Let_def dtCrowd_init_def)

section \<open>The coordinate translation and the path query\<close>

lemma to_host_to_engine: "to_host (to_engine l) = l"
  by (simp add: to_host_def to_engine_def)

lemma to_engine_to_host: "to_engine (to_host v) = v"
  by (cases v) (simp add: to_host_def to_engine_def)

lemma map_to_host: "map (\<lambda>(p0, p1, p2). \<lparr>loc_x = p0, loc_y = p2, loc_z = p1\<rparr>) ws = map to_host ws"
  by (rule map_cong) (auto simp: to_host_def)

lemma GetPath_eq_translated:
  "GetPath e s from to filter_arg path = GetPath_translated e s from to filter_arg path"
  by (simp add: GetPath_def GetPath_translated_def engine_waypoints_def Let_def map_to_host
      to_engine_def split: option.split)

text \<open>
  Claim C4. Translating a point to engine space and back gives the point
  itself, and so does the other round trip: the swap of the second and third
  axis is its own inverse. \<^verbatim>\<open>GetPath\<close> is the engine's waypoint computation with
  the translation applied once to each of the two endpoints on the way in and
  once to each waypoint on the way out.
\<close>

theorem coordinate_round_trip:
  "to_host (to_engine l) = l \<and> to_engine (to_host v) = v \<and>
   GetPath e s from to filter_arg path = GetPath_translated e s from to filter_arg path"
  using to_host_to_engine to_engine_to_host GetPath_eq_translated by blast

text \<open>
  Claim C1, as amended. On a loaded surface and with any filter, when both
  nearest polygons are found and the corridor search returns a non-empty
  corridor, a straight-path simplification that produces no waypoint makes
  \<^verbatim>\<open>GetPath\<close> return \<^verbatim>\<open>true\<close> with an empty waypoint sequence.
\<close>

theorem GetPath_empty_straight_path_succeeds:
  assumes "binaryMesh s \<noteq> []" and "navQuery s = Some q"
    and "flt = (case filter_arg of None \<Rightarrow> filter2 e | Some f \<Rightarrow> f)"
    and "findNearestPoly e q (to_engine from) m_polyPickExt flt = a" "a \<noteq> 0"
    and "findNearestPoly e q (to_engine to) m_polyPickExt flt = b" "b \<noteq> 0"
    and "findPath e q a b (to_engine from) (to_engine to) flt MAX_POLYS = polys"
      "polys \<noteq> []"
    and "findStraightPath e q (to_engine from)
           (if last polys \<noteq> b then closestPointOnPoly e q (last polys) (to_engine to) (to_engine to)
            else to_engine to) polys MAX_POLYS 0 = []"
  shows "GetPath e s from to filter_arg path = Inr (True, [])"
  using assms by (auto simp add: GetPath_def Let_def to_engine_def)

text \<open>The amended statement at a concrete query on the loaded example.\<close>

theorem GetPath_empty_straight_path_succeeds_witness:
  "binaryMesh example_loaded \<noteq> [] \<and>
   GetPath example_engine example_loaded \<lparr>loc_x = 1, loc_y = 2, loc_z = 3\<rparr> origin None
     [origin, origin] = Inr (True, [])"
proof -
  have b: "binaryMesh example_loaded \<noteq> []"
    by (simp add: example_loaded_binaryMesh example_content_def example_header_def)
  have "GetPath example_engine example_loaded \<lparr>loc_x = 1, loc_y = 2, loc_z = 3\<rparr> origin None
     [origin, origin] = Inr (True, [])"
    by (rule GetPath_empty_straight_path_succeeds
          [OF b example_loaded_navQuery refl, where a = 1 and b = 1 and polys = "[1]"])
       (simp_all add: example_engine_def)
  then show ?thesis using b by simp
qed

text \<open>The claim as it was stated fails: here the surface is loaded, both
  nearest polygons are polygon 1, the corridor is \<open>[1]\<close>, the simplification
  yields no waypoint, and \<^verbatim>\<open>GetPath\<close> returns \<^verbatim>\<open>true\<close>.\<close>

theorem GetPath_empty_straight_path_counterexample:
  "binaryMesh example_loaded \<noteq> [] \<and>
   findNearestPoly example_engine \<lparr>query_mesh = example_mesh, query_maxNodes = 2048\<rparr>
     (to_engine origin) m_polyPickExt (filter2 example_engine) = 1 \<and>
   findPath example_engine \<lparr>query_mesh = example_mesh, query_maxNodes = 2048\<rparr> 1 1
     (to_engine origin) (to_engine origin) (filter2 example_engine) MAX_POLYS = [1] \<and>
   findStraightPath example_engine \<lparr>query_mesh = example_mesh, query_maxNodes = 2048\<rparr>
     (to_engine origin) (to_engine origin) [1] MAX_POLYS 0 = [] \<and>
   GetPath example_engine example_loaded origin origin None [origin] = Inr (True, [])"
  by (simp add: GetPath_def example_loaded_navQuery example_loaded_binaryMesh Let_def)
     (simp add: example_defs)

section \<open>Walkers\<close>

lemma Navigation_crowd_same: "crowd s = Some c \<Longrightarrow> s\<lparr>crowd := Some c\<rparr> = s"
  by (cases s) simp

lemma free_slot_Some:
  "free_slot as = Some k \<longleftrightarrow> k < length as \<and> \<not> active (as ! k) \<and> (\<forall>j<k. active (as ! j))"
proof (induction as arbitrary: k)
  case Nil
  then show ?case by simp
next
  case (Cons a as)
  show ?case
  proof (cases "active a")
    case True
    show ?thesis
    proof (cases k)
      case 0
      then show ?thesis using True by auto
    next
      case (Suc k')
      have "(\<forall>j<Suc k'. active ((a # as) ! j)) = (\<forall>j<k'. active (as ! j))"
        using True by (auto simp add: less_Suc_eq_0_disj)
      then show ?thesis using True Suc Cons.IH[of k'] by auto
    qed
  next
    case False
    then show ?thesis by (cases k) auto
  qed
qed

lemma free_slot_None: "free_slot as = None \<longleftrightarrow> (\<forall>j<length as. active (as ! j))"
proof (induction as)
  case Nil
  then show ?case by simp
next
  case (Cons a as)
  show ?case
  proof (cases "active a")
    case True
    have "(\<forall>j<Suc (length as). active ((a # as) ! j)) = (\<forall>j<length as. active (as ! j))"
      using True by (auto simp add: less_Suc_eq_0_disj)
    then show ?thesis using True Cons.IH by simp
  next
    case False
    then show ?thesis by auto
  qed
qed

lemma free_slot_fresh: "0 < n \<Longrightarrow> free_slot (replicate n free_agent) = Some 0"
  by (simp add: free_slot_Some free_agent_def)

lemma addAgent_free:
  "free_slot (agents c) = Some k \<Longrightarrow>
     addAgent c pos params = (int k, c\<lparr>agents := (agents c)[k := new_agent pos params]\<rparr>)"
  by (simp add: addAgent_def new_agent_def)

lemma AddWalker_full:
  assumes "crowd s = Some c" and "free_slot (agents c) = None"
  shows "AddWalker e s aid from off = (False, s)"
  using assms by (simp add: AddWalker_def addAgent_def Navigation_crowd_same)

lemma AddWalker_free:
  assumes "crowd s = Some c" and "free_slot (agents c) = Some k"
  shows "\<exists>params. AddWalker e s aid from off =
       (True, s\<lparr>crowd := Some (c\<lparr>agents := (agents c)[k := new_agent (to_engine from) params]\<rparr>),
                 mappedId := (mappedId s)(aid \<mapsto> int k),
                 baseHeight := (baseHeight s)(aid \<mapsto> off),
                 yaw_walkers := (yaw_walkers s)(aid \<mapsto> 0)\<rparr>)"
  using assms
  by (simp add: AddWalker_def addAgent_free to_engine_def Let_def) (rule exI, rule refl)

lemma example_walking_facts:
  "mappedId example_walking 7 = Some 0 \<and> yaw_walkers example_walking 7 = Some 0 \<and>
   baseHeight example_walking 7 = Some 1 \<and> delta_seconds example_walking = 1 / 20 \<and>
   (\<exists>c a. crowd example_walking = Some c \<and> getAgent c 0 = Some a \<and> active a \<and>
      npos a = (0, 0, 0) \<and> vel a = (0, 0, 0) \<and> dvel a = (0, 0, 0))"
proof -
  obtain c where c: "crowd example_loaded = Some c" "agents c = replicate MAX_AGENTS free_agent"
    using example_loaded_agents by blast
  have fs: "free_slot (agents c) = Some 0" by (simp add: c free_slot_fresh MAX_AGENTS_def)
  from AddWalker_free[OF c(1) fs, of example_engine 7 origin 1] obtain ps where a:
    "AddWalker example_engine example_loaded 7 origin 1 =
       (True, example_loaded\<lparr>crowd := Some (c\<lparr>agents := (agents c)[0 := new_agent (to_engine origin) ps]\<rparr>),
                 mappedId := (mappedId example_loaded)(7 \<mapsto> int 0),
                 baseHeight := (baseHeight example_loaded)(7 \<mapsto> 1),
                 yaw_walkers := (yaw_walkers example_loaded)(7 \<mapsto> 0)\<rparr>)"
    by blast
  have o: "to_engine origin = (0, 0, 0)" by (simp add: to_engine_def origin_def)
  show ?thesis
    by (simp add: example_walking_def a getAgent_def c(2) MAX_AGENTS_def o new_agent_def)
qed

text \<open>
  Claim C6. For an identity that has no entry in the identity-to-slot mapping
  (as is every identity never passed to \<^verbatim>\<open>AddWalker\<close>), \<^verbatim>\<open>SetWalkerTarget\<close> and
  \<^verbatim>\<open>GetWalkerTransform\<close> return \<^verbatim>\<open>false\<close>, \<^verbatim>\<open>GetWalkerSpeed\<close> returns its
  \<^verbatim>\<open>false\<close> (the number 0), none of them touches memory outside an object, and
  each leaves the whole state as it was: the mapping, the offsets and headings
  kept per walker, and every agent of the crowd. \<^verbatim>\<open>GetWalkerTransform\<close> also
  leaves the caller's transform as it was.
\<close>

theorem unknown_identity_fails_cleanly:
  assumes "mappedId s aid = None"
  shows "SetWalkerTarget e s aid to = Inr (False, s) \<and>
         GetWalkerTransform fp s aid trans0 = Inr (False, trans0, s) \<and>
         GetWalkerSpeed s aid = Inr 0"
  using assms by (simp add: SetWalkerTarget_def GetWalkerTransform_def GetWalkerSpeed_def)

theorem unknown_identity_fails_cleanly_witness:
  "mappedId example_loaded 7 = None \<and>
   SetWalkerTarget example_engine example_loaded 7 origin = Inr (False, example_loaded) \<and>
   GetWalkerTransform ieee_single example_loaded 7 example_trans =
     Inr (False, example_trans, example_loaded) \<and>
   GetWalkerSpeed example_loaded 7 = Inr 0"
  using unknown_identity_fails_cleanly
    [of example_loaded 7 example_engine origin ieee_single example_trans]
  by (simp add: example_loaded_mappedId)

text \<open>Only \<^verbatim>\<open>AddWalker\<close> for the identity itself gives an identity an entry:
  a call for another identity and the other operations leave the entry as it
  is.\<close>

lemma AddWalker_mappedId_other:
  "aid' \<noteq> aid \<Longrightarrow> mappedId (snd (AddWalker e s aid from off)) aid' = mappedId s aid'"
  by (simp add: AddWalker_def Let_def split: option.split prod.split)

lemma Load_mappedId:
  "Load e s content = Inr (ok, s') \<Longrightarrow> mappedId s' = mappedId s"
  by (auto simp add: Load_def Let_def CreateCrowd_def split: sum.splits if_splits option.splits)

lemma SetWalkerTarget_mappedId:
  "SetWalkerTarget e s aid to = Inr (ok, s') \<Longrightarrow> mappedId s' = mappedId s"
  by (auto simp add: SetWalkerTarget_def SetWalkerTargetIndex_def Let_def
      split: option.splits if_splits prod.splits)

lemma GetWalkerTransform_mappedId:
  "GetWalkerTransform fp s aid trans0 = Inr (ok, trans1, s') \<Longrightarrow> mappedId s' = mappedId s"
  by (auto simp add: GetWalkerTransform_def Let_def split: option.splits if_splits prod.splits)

text \<open>
  Claim C9. \<^verbatim>\<open>GetWalkerSpeed\<close> has no failure value of its own: for an identity
  with no entry in the mapping, or mapped to the invalid slot -1, it returns
  0, and it returns the same 0 for a walker that is mapped to a slot with an
  active agent whose velocity is zero.
\<close>

theorem GetWalkerSpeed_no_failure_channel:
  assumes "mappedId s aid = None \<or> mappedId s aid = Some (- 1)"
    and "mappedId s' aid' = Some i" and "i \<noteq> - 1" and "crowd s' = Some c"
    and "getAgent c i = Some a" and "active a" and "vel a = (0, 0, 0)"
  shows "GetWalkerSpeed s aid = Inr 0 \<and> GetWalkerSpeed s' aid' = Inr 0"
  using assms by (auto simp add: GetWalkerSpeed_def)

theorem GetWalkerSpeed_no_failure_channel_witness:
  "mappedId Navigation_new 7 = None \<and> GetWalkerSpeed Navigation_new 7 = Inr 0 \<and>
   mappedId example_walking 7 = Some 0 \<and> GetWalkerSpeed example_walking 7 = Inr 0"
proof -
  have n: "mappedId Navigation_new 7 = None" by (simp add: Navigation_new_def)
  obtain c a where ca: "crowd example_walking = Some c" "getAgent c 0 = Some a" "active a"
    "vel a = (0, 0, 0)" and m: "mappedId example_walking 7 = Some 0"
    using example_walking_facts by blast
  from GetWalkerSpeed_no_failure_channel[OF disjI1[OF n] m _ ca] show ?thesis using n m by simp
qed

section \<open>The heading of a walker\<close>

lemma GetWalkerTransform_success:
  assumes "GetWalkerTransform fp s aid trans0 = Inr (True, trans1, s1)"
  shows "\<exists>i c a. mappedId s aid = Some i \<and> i \<noteq> - 1 \<and> crowd s = Some c \<and>
     getAgent c i = Some a \<and> active a \<and>
     yaw (rotation trans1) =
       smoothed_yaw fp (velocity_yaw fp a) (stored_yaw s aid) (delta_seconds s) \<and>
     s1 = s\<lparr>yaw_walkers := (yaw_walkers s)(aid \<mapsto> yaw (rotation trans1))\<rparr>"
  using assms
  by (auto simp add: GetWalkerTransform_def stored_yaw_def velocity_yaw_def shortest_angle_def
      smoothed_yaw_def Let_def split: option.splits if_splits prod.splits)

lemma GetWalkerTransform_run:
  assumes "mappedId s aid = Some i" "i \<noteq> - 1" "crowd s = Some c" "getAgent c i = Some a"
    "active a"
  shows "\<exists>trans1. GetWalkerTransform fp s aid trans0 =
      Inr (True, trans1, s\<lparr>yaw_walkers := (yaw_walkers s)(aid \<mapsto> yaw (rotation trans1))\<rparr>) \<and>
     yaw (rotation trans1) =
       smoothed_yaw fp (velocity_yaw fp a) (stored_yaw s aid) (delta_seconds s)"
  using assms
  by (auto simp add: GetWalkerTransform_def stored_yaw_def velocity_yaw_def shortest_angle_def
      smoothed_yaw_def Let_def split: option.splits if_splits prod.splits)

text \<open>
  Claim C10, as amended. \<^verbatim>\<open>GetWalkerTransform\<close> is not a read-only accessor:
  whatever the floating-point operations are, a successful call returns the
  yaw that the single-precision expression of the source gives for the stored
  heading, the heading of the desired velocity and the delta time of the last
  tick, stores the returned yaw as the walker's heading, and changes nothing
  else, so the headings stored for all other walkers stay. A second call on
  the same agent state succeeds too and returns the value of the same
  expression at the first yaw as stored heading.
\<close>

theorem GetWalkerTransform_updates_heading:
  assumes "GetWalkerTransform fp s aid trans0 = Inr (True, trans1, s1)"
  shows "\<exists>i c a. mappedId s aid = Some i \<and> crowd s = Some c \<and> getAgent c i = Some a \<and>
     yaw (rotation trans1) =
       smoothed_yaw fp (velocity_yaw fp a) (stored_yaw s aid) (delta_seconds s) \<and>
     s1 = s\<lparr>yaw_walkers := (yaw_walkers s)(aid \<mapsto> yaw (rotation trans1))\<rparr> \<and>
     stored_yaw s1 aid = yaw (rotation trans1) \<and>
     (\<forall>b. b \<noteq> aid \<longrightarrow> yaw_walkers s1 b = yaw_walkers s b) \<and>
     (\<forall>trans2. \<exists>trans3 s2. GetWalkerTransform fp s1 aid trans2 = Inr (True, trans3, s2) \<and>
        yaw (rotation trans3) =
          smoothed_yaw fp (velocity_yaw fp a) (yaw (rotation trans1)) (delta_seconds s))"
proof -
  from GetWalkerTransform_success[OF assms] obtain i c a where
    f: "mappedId s aid = Some i" "i \<noteq> - 1" "crowd s = Some c" "getAgent c i = Some a" "active a"
    and y: "yaw (rotation trans1) =
       smoothed_yaw fp (velocity_yaw fp a) (stored_yaw s aid) (delta_seconds s)"
    and s1: "s1 = s\<lparr>yaw_walkers := (yaw_walkers s)(aid \<mapsto> yaw (rotation trans1))\<rparr>"
    by blast
  have st: "stored_yaw s1 aid = yaw (rotation trans1)" by (simp add: s1 stored_yaw_def)
  have others: "\<forall>b. b \<noteq> aid \<longrightarrow> yaw_walkers s1 b = yaw_walkers s b" by (simp add: s1)
  have f1: "mappedId s1 aid = Some i" "crowd s1 = Some c" "delta_seconds s1 = delta_seconds s"
    using f by (simp_all add: s1)
  have second: "\<exists>trans3 s2. GetWalkerTransform fp s1 aid trans2 = Inr (True, trans3, s2) \<and>
        yaw (rotation trans3) =
          smoothed_yaw fp (velocity_yaw fp a) (yaw (rotation trans1)) (delta_seconds s)"
    for trans2
  proof -
    from GetWalkerTransform_run[OF f1(1) f(2) f1(2) f(4) f(5), of fp trans2] obtain trans3 where
      t3: "GetWalkerTransform fp s1 aid trans2 =
        Inr (True, trans3, s1\<lparr>yaw_walkers := (yaw_walkers s1)(aid \<mapsto> yaw (rotation trans3))\<rparr>)"
      "yaw (rotation trans3) =
         smoothed_yaw fp (velocity_yaw fp a) (stored_yaw s1 aid) (delta_seconds s1)"
      by blast
    have "yaw (rotation trans3) =
        smoothed_yaw fp (velocity_yaw fp a) (yaw (rotation trans1)) (delta_seconds s)"
      using t3(2) by (simp add: st f1(3))
    then show ?thesis using t3(1) by auto
  qed
  show ?thesis using f(1,3,4) y s1 st others second by blast
qed

subsection \<open>Single precision on small integers\<close>

text \<open>Rounding to single precision leaves 0 and every integer below \<open>2\<^sup>2\<^sup>4\<close> in
  absolute value as it is.\<close>

lemma round_even_of_int: "round_even (of_int n) = n"
  by (simp add: round_even_def)

lemma round32_0: "round32 0 = 0"
  by (simp add: round32_def round_even_def)

lemma round32_int:
  assumes "n \<noteq> 0" and "\<bar>n\<bar> < 2 ^ 24"
  shows "round32 (of_int n) = of_int n"
proof -
  let ?x = "\<bar>real_of_int n\<bar>"
  let ?e = "\<lfloor>log 2 ?x\<rfloor>"
  have "1 \<le> \<bar>n\<bar>" using assms(1) by simp
  then have "real_of_int 1 \<le> real_of_int \<bar>n\<bar>" by (simp only: of_int_le_iff)
  then have x1: "1 \<le> ?x" by simp
  have "real_of_int \<bar>n\<bar> < real_of_int (2 ^ 24)" using assms(2) by (simp only: of_int_less_iff)
  then have x2: "?x < 2 ^ 24" by simp
  have e0: "0 \<le> ?e" using x1 by simp
  have "log 2 ?x < 24"
    using x1 x2 by (subst log_less_iff) (simp_all add: powr_realpow[of 2 24, simplified])
  then have e23: "?e \<le> 23" by linarith
  have ex: "exponent32 (of_int n) = ?e" using e0 by (simp add: exponent32_def)
  define k where "k = nat (23 - ?e)"
  have ulp: "ulp32 (of_int n) = inverse (2 ^ k)"
    using e23 by (simp add: ulp32_def ex power_int_def k_def power_one_over inverse_eq_divide)
  have q: "of_int n / ulp32 (of_int n) = of_int (n * 2 ^ k)" by (simp add: ulp divide_inverse)
  have "round32 (of_int n) = of_int (round_even (of_int n / ulp32 (of_int n))) * ulp32 (of_int n)"
    by (simp only: round32_def)
  also have "\<dots> = of_int (n * 2 ^ k) * ulp32 (of_int n)" by (simp only: q round_even_of_int)
  also have "\<dots> = of_int n" by (simp add: ulp)
  finally show ?thesis .
qed

lemma round32_numeral: "(numeral w :: int) < 2 ^ 24 \<Longrightarrow> round32 (numeral w) = numeral w"
  using round32_int[of "numeral w"] by simp

lemma round32_neg_numeral:
  "(numeral w :: int) < 2 ^ 24 \<Longrightarrow> round32 (- numeral w) = - numeral w"
  using round32_int[of "- numeral w"] by simp

lemma round32_1: "round32 1 = 1"
  using round32_int[of 1] by simp

lemmas round32_exact = round32_0 round32_1 round32_numeral round32_neg_numeral

text \<open>Other numbers are rounded: in single precision the sum of 0.0000057 and
  540 is 540.\<close>

lemma exponent32_540: "exponent32 (5400000057 / 10000000) = 9"
proof -
  let ?x = "5400000057 / 10000000 :: real"
  have p9: "(2::real) powr 9 = 512" and p10: "(2::real) powr 10 = 1024"
    using powr_realpow[of 2 9] powr_realpow[of 2 10] by simp_all
  have a: "9 \<le> log 2 ?x" by (subst le_log_iff) (simp_all add: p9)
  have b: "log 2 ?x < 10" by (subst log_less_iff) (simp_all add: p10)
  have "\<lfloor>log 2 \<bar>?x\<bar>\<rfloor> = 9" using a b by (simp add: floor_eq_iff)
  then show ?thesis by (simp add: exponent32_def)
qed

lemma round32_rounds: "round32 (5400000057 / 10000000) = 540"
proof -
  have u: "ulp32 (5400000057 / 10000000) = 1 / 16384"
    by (simp add: ulp32_def exponent32_540 power_int_minus)
  have f: "\<lfloor>5400000057 / 10000000 * 16384 :: real\<rfloor> = 8847360"
    by (simp add: floor_eq_iff)
  show ?thesis
    by (simp add: round32_def u round_even_def Let_def f)
qed

lemma ieee_single_fadd_rounds: "fadd ieee_single (57 / 10000000) 540 = 540"
  by (simp add: ieee_single_def round32_rounds)

lemma fmod_real_540: "fmod_real 540 360 = 180"
  by (simp add: fmod_real_def Let_def)

lemma fmod_real_495: "fmod_real 495 360 = 135"
  by (simp add: fmod_real_def Let_def)

lemma fmod_real_675: "fmod_real 675 360 = 315"
  by (simp add: fmod_real_def Let_def)

lemma velocity_yaw_still: "dvel a = (0, 0, 0) \<Longrightarrow> velocity_yaw ieee_single a = 0"
  by (simp add: velocity_yaw_def ieee_single_def atan2_real_def round32_0)

lemma smoothed_yaw_0_0: "smoothed_yaw ieee_single 0 0 dt = 0"
  by (simp add: smoothed_yaw_def shortest_angle_def ieee_single_def round32_exact fmod_real_540)

lemma smoothed_yaw_0_45: "smoothed_yaw ieee_single 0 45 1 = - 135"
  by (simp add: smoothed_yaw_def shortest_angle_def ieee_single_def round32_exact fmod_real_495)

lemma smoothed_yaw_0_m135: "smoothed_yaw ieee_single 0 (- 135) 1 = 405"
  by (simp add: smoothed_yaw_def shortest_angle_def ieee_single_def round32_exact fmod_real_675)

lemma example_heading_facts:
  "mappedId example_heading 7 = Some 0 \<and> yaw_walkers example_heading 7 = Some 45 \<and>
   delta_seconds example_heading = 1 \<and>
   (\<exists>c a. crowd example_heading = Some c \<and> getAgent c 0 = Some a \<and> active a \<and>
      dvel a = (0, 0, 0))"
  using example_walking_facts by (auto simp add: example_heading_def)

text \<open>The amended statement in single precision, on a walker that has no
  desired velocity (heading 0), with stored heading 45 and a tick of 1 s: the
  first call returns -135 degrees and stores it, the next one returns 405
  degrees.\<close>

theorem GetWalkerTransform_updates_heading_witness:
  "\<exists>trans1 s1 trans3 s2.
     GetWalkerTransform ieee_single example_heading 7 example_trans = Inr (True, trans1, s1) \<and>
     yaw (rotation trans1) = - 135 \<and> yaw_walkers s1 7 = Some (- 135) \<and>
     GetWalkerTransform ieee_single s1 7 example_trans = Inr (True, trans3, s2) \<and>
     yaw (rotation trans3) = 405"
proof -
  obtain c a where ca: "crowd example_heading = Some c" "getAgent c 0 = Some a" "active a"
      "dvel a = (0, 0, 0)"
    and m: "mappedId example_heading 7 = Some 0" "yaw_walkers example_heading 7 = Some 45"
      "delta_seconds example_heading = 1"
    using example_heading_facts by blast
  have vy: "velocity_yaw ieee_single a = 0" by (rule velocity_yaw_still[OF ca(4)])
  have sy: "stored_yaw example_heading 7 = 45" by (simp add: stored_yaw_def m(2))
  from GetWalkerTransform_run[OF m(1) _ ca(1,2,3), of ieee_single example_trans]
  obtain trans1 where
    t1: "GetWalkerTransform ieee_single example_heading 7 example_trans =
      Inr (True, trans1, example_heading\<lparr>yaw_walkers :=
             (yaw_walkers example_heading)(7 \<mapsto> yaw (rotation trans1))\<rparr>)"
    by auto
  from GetWalkerTransform_updates_heading[OF t1] obtain i' c' a' where
    r: "mappedId example_heading 7 = Some i'" "crowd example_heading = Some c'"
       "getAgent c' i' = Some a'"
       "yaw (rotation trans1) =
          smoothed_yaw ieee_single (velocity_yaw ieee_single a') (stored_yaw example_heading 7)
            (delta_seconds example_heading)"
       "\<forall>trans2. \<exists>trans3 s2. GetWalkerTransform ieee_single
           (example_heading\<lparr>yaw_walkers :=
              (yaw_walkers example_heading)(7 \<mapsto> yaw (rotation trans1))\<rparr>)
           7 trans2 = Inr (True, trans3, s2) \<and>
        yaw (rotation trans3) =
          smoothed_yaw ieee_single (velocity_yaw ieee_single a') (yaw (rotation trans1))
            (delta_seconds example_heading)"
    by blast
  have a': "a' = a" using r(1,2,3) m(1) ca(1,2) by simp
  have y1: "yaw (rotation trans1) = - 135"
    using r(4) by (simp add: a' vy sy m(3) smoothed_yaw_0_45)
  from r(5) obtain trans3 s2 where
    t3: "GetWalkerTransform ieee_single
           (example_heading\<lparr>yaw_walkers :=
              (yaw_walkers example_heading)(7 \<mapsto> yaw (rotation trans1))\<rparr>)
           7 example_trans = Inr (True, trans3, s2)"
       "yaw (rotation trans3) =
          smoothed_yaw ieee_single (velocity_yaw ieee_single a') (yaw (rotation trans1))
            (delta_seconds example_heading)"
    by blast
  have y3: "yaw (rotation trans3) = 405"
    using t3(2) by (simp add: a' vy y1 m(3) smoothed_yaw_0_m135)
  show ?thesis
    using t1 y1 t3(1) y3
    by (intro exI[of _ trans1] exI[of _ "example_heading\<lparr>yaw_walkers :=
          (yaw_walkers example_heading)(7 \<mapsto> yaw (rotation trans1))\<rparr>"]
          exI[of _ trans3] exI[of _ s2]) simp
qed

lemma example_walking_transform:
  "\<exists>trans1. GetWalkerTransform ieee_single example_walking 7 example_trans =
     Inr (True, trans1, example_walking) \<and> yaw (rotation trans1) = 0"
proof -
  obtain c a where ca: "crowd example_walking = Some c" "getAgent c 0 = Some a" "active a"
    "dvel a = (0, 0, 0)" and m: "mappedId example_walking 7 = Some 0"
    "yaw_walkers example_walking 7 = Some 0"
    using example_walking_facts by blast
  have same: "example_walking\<lparr>yaw_walkers := (yaw_walkers example_walking)(7 \<mapsto> 0)\<rparr>
      = example_walking"
    using m(2) by (cases example_walking) (auto simp add: fun_upd_idem)
  from GetWalkerTransform_run[OF m(1) _ ca(1,2,3), of ieee_single example_trans]
  obtain trans1 where
    t1: "GetWalkerTransform ieee_single example_walking 7 example_trans =
      Inr (True, trans1, example_walking\<lparr>yaw_walkers :=
             (yaw_walkers example_walking)(7 \<mapsto> yaw (rotation trans1))\<rparr>)"
      "yaw (rotation trans1) =
         smoothed_yaw ieee_single (velocity_yaw ieee_single a) (stored_yaw example_walking 7)
           (delta_seconds example_walking)"
    by auto
  have y1: "yaw (rotation trans1) = 0"
    using t1(2) by (simp add: velocity_yaw_still[OF ca(4)] stored_yaw_def m(2) smoothed_yaw_0_0)
  show ?thesis using t1(1) y1 same by auto
qed

text \<open>The claim as it was stated fails: in single precision, two successive
  successful calls for a walker that stands still (desired velocity zero,
  stored heading 0, after a tick of 1/20 s) both return the yaw 0.\<close>

theorem GetWalkerTransform_twice_same_yaw:
  "GetWalkerTransform_twice ieee_single example_walking 7 example_trans =
     Inr ((True, 0), (True, 0))"
proof -
  obtain trans1 where
    t: "GetWalkerTransform ieee_single example_walking 7 example_trans =
          Inr (True, trans1, example_walking)" "yaw (rotation trans1) = 0"
    using example_walking_transform by blast
  show ?thesis by (simp add: GetWalkerTransform_twice_def t)
qed

section \<open>Random locations\<close>

lemma loc_update_all:
  "loc\<lparr>loc_x := a, loc_y := b, loc_z := c\<rparr> = \<lparr>loc_x = a, loc_y = b, loc_z = c\<rparr>"
  by (cases loc) simp

lemma sample_0: "sample e q flt r 0 = findRandomPoint e q flt r"
  by (simp add: sample_def)

lemma sample_Suc:
  "sample e q flt r (Suc k) = sample e q flt (snd (snd (snd (findRandomPoint e q flt r)))) k"
  by (simp add: sample_def)

lemma first_accepted_shift:
  assumes "\<not> accepted e m (findRandomPoint e q flt r)"
    and "accepted e m (sample e q flt (snd (snd (snd (findRandomPoint e q flt r)))) k)"
    and "\<forall>j<k. \<not> accepted e m (sample e q flt (snd (snd (snd (findRandomPoint e q flt r)))) j)"
  shows "accepted e m (sample e q flt r (Suc k)) \<and> (\<forall>j<Suc k. \<not> accepted e m (sample e q flt r j))"
proof -
  have "\<not> accepted e m (sample e q flt r j)" if "j < Suc k" for j
  proof (cases j)
    case 0
    then show ?thesis using assms(1) by (simp add: sample_0)
  next
    case (Suc j')
    then show ?thesis using assms(3) that by (simp add: sample_Suc)
  qed
  then show ?thesis using assms(2) by (simp add: sample_Suc)
qed

text \<open>One round of the loop.\<close>

lemma random_loop_unfold:
  assumes "findRandomPoint e q flt r = (st, rf, (p0, p1, p2), r')"
  shows "random_loop e q flt m loc r =
    (if st = DT_SUCCESS e
     then (if m = - 1 \<or> (0 \<le> m \<and> p1 \<le> m)
           then Some (\<lparr>loc_x = p0, loc_y = p2, loc_z = p1\<rparr>, r')
           else random_loop e q flt m \<lparr>loc_x = p0, loc_y = p2, loc_z = p1\<rparr> r')
     else random_loop e q flt m loc r')"
  by (subst random_loop.simps) (simp add: assms loc_update_all Let_def)

text \<open>When the loop returns, it returns the first accepted sample.\<close>

lemma random_loop_first_accepted:
  assumes "random_loop e q flt m loc r = Some res"
  shows "\<exists>k. first_accepted e q flt m r k \<and>
             res = (to_host (fst (snd (snd (sample e q flt r k)))),
                    snd (snd (snd (sample e q flt r k))))"
proof (rule random_loop.raw_induct[where P = "\<lambda>e q flt m loc r res.
     \<exists>k. first_accepted e q flt m r k \<and>
             res = (to_host (fst (snd (snd (sample e q flt r k)))),
                    snd (snd (snd (sample e q flt r k))))",
     OF _ assms])
  fix f :: "engine \<Rightarrow> dtNavMeshQuery \<Rightarrow> dtQueryFilter \<Rightarrow> real \<Rightarrow> Location \<Rightarrow> rng
    \<Rightarrow> (Location \<times> rng) option"
  fix e q flt m loc r res
  assume IH: "\<And>e q flt m loc r res. f e q flt m loc r = Some res \<Longrightarrow>
     \<exists>k. first_accepted e q flt m r k \<and>
             res = (to_host (fst (snd (snd (sample e q flt r k)))),
                    snd (snd (snd (sample e q flt r k))))"
  assume body0: "(case findRandomPoint e q flt r of
          (status, randomRef, point, r') \<Rightarrow>
            if status = DT_SUCCESS e
            then case point of
                 (p0, p1, p2) \<Rightarrow>
                   let loc' = loc\<lparr>loc_x := p0, loc_y := p2, loc_z := p1\<rparr>
                   in if m = - 1 \<or> 0 \<le> m \<and> loc_z loc' \<le> m
                      then Some (loc', r')
                      else f e q flt m loc' r'
            else f e q flt m loc r') =
         Some res"
  obtain st rf p0 p1 p2 r' where fr: "findRandomPoint e q flt r = (st, rf, (p0, p1, p2), r')"
    by (metis prod_cases3 surj_pair)
  have body: "(if st = DT_SUCCESS e
     then (if m = - 1 \<or> (0 \<le> m \<and> p1 \<le> m)
           then Some (\<lparr>loc_x = p0, loc_y = p2, loc_z = p1\<rparr>, r')
           else f e q flt m \<lparr>loc_x = p0, loc_y = p2, loc_z = p1\<rparr> r')
     else f e q flt m loc r') = Some res"
    using body0 by (auto simp add: fr loc_update_all Let_def split: if_splits)
  have acc0: "accepted e m (findRandomPoint e q flt r) =
      (st = DT_SUCCESS e \<and> (m = - 1 \<or> (0 \<le> m \<and> p1 \<le> m)))"
    by (simp add: fr accepted_def)
  show "\<exists>k. first_accepted e q flt m r k \<and>
             res = (to_host (fst (snd (snd (sample e q flt r k)))),
                    snd (snd (snd (sample e q flt r k))))"
  proof (cases "accepted e m (findRandomPoint e q flt r)")
    case True
    then have "res = (to_host (p0, p1, p2), r')"
      using body acc0 by (simp add: to_host_def)
    then show ?thesis
      using True fr by (intro exI[of _ 0]) (simp add: sample_0 first_accepted_def)
  next
    case False
    then have "\<exists>loc'. f e q flt m loc' r' = Some res"
      using body acc0 by (cases "st = DT_SUCCESS e") auto
    then obtain loc' where rec: "f e q flt m loc' r' = Some res" ..
    from IH[OF rec] obtain k where k: "first_accepted e q flt m r' k"
      "res = (to_host (fst (snd (snd (sample e q flt r' k)))),
              snd (snd (snd (sample e q flt r' k))))"
      by blast
    have "first_accepted e q flt m r (Suc k)"
      using first_accepted_shift[of e m q flt r k] False k(1) fr by (simp add: first_accepted_def)
    then show ?thesis using k(2) fr by (intro exI[of _ "Suc k"]) (simp add: sample_Suc)
  qed
qed

text \<open>The loop returns as soon as some round, however late, accepts its sample.\<close>

lemma random_loop_returns:
  "accepted e m (sample e q flt r k) \<Longrightarrow> random_loop e q flt m loc r \<noteq> None"
proof (induction k arbitrary: r loc)
  case 0
  obtain st rf p0 p1 p2 r' where fr: "findRandomPoint e q flt r = (st, rf, (p0, p1, p2), r')"
    by (metis prod_cases3 surj_pair)
  show ?case using 0 fr
    by (simp add: random_loop_unfold[OF fr] sample_0 accepted_def)
next
  case (Suc k)
  obtain st rf p0 p1 p2 r' where fr: "findRandomPoint e q flt r = (st, rf, (p0, p1, p2), r')"
    by (metis prod_cases3 surj_pair)
  have acc: "accepted e m (sample e q flt r' k)" using Suc.prems fr by (simp add: sample_Suc)
  show ?case using Suc.IH[OF acc]
    by (simp add: random_loop_unfold[OF fr])
qed

lemma first_accepted_unique:
  "first_accepted e q flt m r k \<Longrightarrow> first_accepted e q flt m r k' \<Longrightarrow> k = k'"
  unfolding first_accepted_def by (meson linorder_neqE_nat)

lemma accepted_first:
  assumes "accepted e m (sample e q flt r k)"
  shows "\<exists>k'. first_accepted e q flt m r k'"
proof -
  let ?P = "\<lambda>j. accepted e m (sample e q flt r j)"
  have "?P (LEAST j. ?P j)" using assms by (rule LeastI)
  moreover have "\<forall>j<(LEAST j. ?P j). \<not> ?P j" using not_less_Least by blast
  ultimately show ?thesis unfolding first_accepted_def by blast
qed

text \<open>The loop returns the first accepted sample, in whatever round it comes;
  it runs forever when no round accepts.\<close>

lemma random_loop_eq:
  assumes "first_accepted e q flt m r k"
  shows "random_loop e q flt m loc r =
     Some (to_host (fst (snd (snd (sample e q flt r k)))), snd (snd (snd (sample e q flt r k))))"
proof -
  have "accepted e m (sample e q flt r k)" using assms by (simp add: first_accepted_def)
  then obtain res where res: "random_loop e q flt m loc r = Some res"
    using random_loop_returns[of e m q flt r k loc] by auto
  from random_loop_first_accepted[OF res] obtain k' where k': "first_accepted e q flt m r k'"
    "res = (to_host (fst (snd (snd (sample e q flt r k')))), snd (snd (snd (sample e q flt r k'))))"
    by blast
  have "k' = k" using first_accepted_unique[OF k'(1) assms] .
  then show ?thesis using res k'(2) by simp
qed

lemma random_loop_diverges:
  assumes "\<forall>k. \<not> accepted e m (sample e q flt r k)"
  shows "random_loop e q flt m loc r = None"
proof (cases "random_loop e q flt m loc r")
  case None
  then show ?thesis .
next
  case (Some res)
  from random_loop_first_accepted[OF Some] assms show ?thesis
    by (auto simp add: first_accepted_def)
qed

text \<open>A height bound below 0 other than the sentinel accepts no sample.\<close>

lemma random_loop_negative_bound:
  assumes "m < 0" and "m \<noteq> - 1"
  shows "random_loop e q flt m loc r = None"
proof (rule random_loop_diverges)
  show "\<forall>k. \<not> accepted e m (sample e q flt r k)"
  proof
    fix k
    obtain st rf p0 p1 p2 r' where "sample e q flt r k = (st, rf, (p0, p1, p2), r')"
      by (metis prod_cases3 surj_pair)
    then show "\<not> accepted e m (sample e q flt r k)"
      using assms by (simp add: accepted_def)
  qed
qed

lemma accepted_bound:
  "accepted e m smp \<Longrightarrow> 0 \<le> m \<Longrightarrow> loc_z (to_host (fst (snd (snd smp)))) \<le> m"
  by (cases smp) (auto simp add: accepted_def to_host_def)

lemma accepted_success: "accepted e m smp \<Longrightarrow> fst smp = DT_SUCCESS e"
  by (cases smp) (auto simp add: accepted_def)

lemma accepted_unbounded: "accepted e (- 1) smp = (fst smp = DT_SUCCESS e)"
  by (cases smp) (auto simp add: accepted_def)

text \<open>
  Claim C7. Let \<^verbatim>\<open>GetRandomLocation\<close> return on an object whose query object
  exists, and let \<open>P\<close> be any property that the engine's sampler guarantees of
  a successfully sampled point under the filter in use (the default filter
  when the caller passes none), such as lying on a walkable polygon. Then the
  call reports success; the location is the translation of a sample for which
  the sampler reported success, so it has the property \<open>P\<close>; with a bound
  \<open>m \<ge> 0\<close> its vertical coordinate is at most \<open>m\<close>, and it is the first such
  sample of the run, however many rounds that took; with the sentinel -1 it
  is the first sample for which the sampler reported success.
\<close>

theorem GetRandomLocation_result:
  assumes ret: "GetRandomLocation e s loc m filter_arg r = Some res"
    and q: "navQuery s = Some q"
    and flt: "flt = (case filter_arg of None \<Rightarrow> filter2 e | Some f \<Rightarrow> f)"
    and contract: "\<And>r0. fst (findRandomPoint e q flt r0) = DT_SUCCESS e
                    \<Longrightarrow> P (fst (snd (snd (findRandomPoint e q flt r0))))"
  shows "\<exists>l r' k. res = Inr (True, l, r') \<and>
           fst (sample e q flt r k) = DT_SUCCESS e \<and>
           l = to_host (fst (snd (snd (sample e q flt r k)))) \<and>
           r' = snd (snd (snd (sample e q flt r k))) \<and>
           P (to_engine l) \<and>
           (0 \<le> m \<longrightarrow> loc_z l \<le> m) \<and>
           (m = - 1 \<longrightarrow> (\<forall>j<k. fst (sample e q flt r j) \<noteq> DT_SUCCESS e)) \<and>
           first_accepted e q flt m r k"
proof -
  from ret q flt obtain l r' where lp: "random_loop e q flt m loc r = Some (l, r')"
    and res: "res = Inr (True, l, r')"
    by (auto simp add: GetRandomLocation_def GetRandomLocationWithoutLock_def)
  from random_loop_first_accepted[OF lp] obtain k where k: "first_accepted e q flt m r k"
    and l: "l = to_host (fst (snd (snd (sample e q flt r k))))"
    and r': "r' = snd (snd (snd (sample e q flt r k)))"
    by auto
  have acc: "accepted e m (sample e q flt r k)" using k by (simp add: first_accepted_def)
  have succ: "fst (sample e q flt r k) = DT_SUCCESS e" by (rule accepted_success[OF acc])
  have "P (fst (snd (snd (sample e q flt r k))))"
    using contract[of "rng_after e q flt r k"] succ by (simp add: sample_def)
  then have P: "P (to_engine l)" by (simp add: l to_engine_to_host)
  have bound: "0 \<le> m \<longrightarrow> loc_z l \<le> m" using accepted_bound[OF acc] l by simp
  have first: "m = - 1 \<longrightarrow> (\<forall>j<k. fst (sample e q flt r j) \<noteq> DT_SUCCESS e)"
    using k by (auto simp add: first_accepted_def accepted_unbounded)
  show ?thesis using res succ l r' P bound first k by blast
qed

lemma example_random_loop:
  "random_loop example_engine \<lparr>query_mesh = example_mesh, query_maxNodes = 2048\<rparr>
     (filter2 example_engine) 1 origin 0 = Some (\<lparr>loc_x = 0, loc_y = 0, loc_z = 1\<rparr>, 3)"
proof -
  let ?q = "\<lparr>query_mesh = example_mesh, query_maxNodes = 2048\<rparr>"
  let ?f = "filter2 example_engine"
  have fr: "findRandomPoint example_engine ?q ?f n = (2 ^ 30, 1, (0, 3 - real n, 0), Suc n)" for n
    by (simp add: example_engine_def)
  have ok: "DT_SUCCESS example_engine = 2 ^ 30" by (simp add: example_engine_def)
  have 2: "random_loop example_engine ?q ?f 1 l 2 = Some (\<lparr>loc_x = 0, loc_y = 0, loc_z = 1\<rparr>, 3)"
    for l
    by (simp add: random_loop_unfold[OF fr] ok)
  have 1: "random_loop example_engine ?q ?f 1 l 1 = Some (\<lparr>loc_x = 0, loc_y = 0, loc_z = 1\<rparr>, 3)"
    for l
    using 2 by (simp add: random_loop_unfold[OF fr] ok)
  show ?thesis
    using 1 by (simp add: random_loop_unfold[OF fr] ok)
qed

text \<open>The statement on the loaded example with the bound 1: the samples have
  heights 3, 2, 1, and the third is returned.\<close>

theorem GetRandomLocation_result_witness:
  "GetRandomLocation example_engine example_loaded origin 1 None 0
     = Some (Inr (True, \<lparr>loc_x = 0, loc_y = 0, loc_z = 1\<rparr>, 3)) \<and>
   (\<exists>l r' k. Inr (True, \<lparr>loc_x = 0, loc_y = 0, loc_z = 1\<rparr>, 3)
        = (Inr (True, l, r') :: fault + bool \<times> Location \<times> rng) \<and>
      fst (to_engine l) = 0 \<and> loc_z l \<le> 1 \<and>
      first_accepted example_engine \<lparr>query_mesh = example_mesh, query_maxNodes = 2048\<rparr>
        (filter2 example_engine) 1 0 k)"
proof -
  have ev: "GetRandomLocation example_engine example_loaded origin 1 None 0
     = Some (Inr (True, \<lparr>loc_x = 0, loc_y = 0, loc_z = 1\<rparr>, 3))"
    by (simp add: GetRandomLocation_def GetRandomLocationWithoutLock_def example_loaded_navQuery
        example_random_loop)
  have c: "fst (snd (snd (findRandomPoint example_engine
        \<lparr>query_mesh = example_mesh, query_maxNodes = 2048\<rparr>
        (filter2 example_engine) r0))) \<in> {p. fst p = 0}" for r0
    by (simp add: example_engine_def)
  from GetRandomLocation_result[OF ev example_loaded_navQuery, of "filter2 example_engine"
      "\<lambda>p. fst p = 0"] c
  show ?thesis using ev by auto
qed

section \<open>Loading\<close>

subsection \<open>Decoding what the format encodes\<close>

lemma length_le_bytes [simp]: "length (le_bytes n v) = n"
  by (induction n arbitrary: v) simp_all

lemma le_nat_le_bytes: "v < 256 ^ n \<Longrightarrow> le_nat (le_bytes n v) = v"
proof (induction n arbitrary: v)
  case 0
  then show ?case by simp
next
  case (Suc n)
  have "v div 256 < 256 ^ n" using Suc.prems by (simp add: less_mult_imp_div_less mult.commute)
  then have "le_nat (le_bytes n (v div 256)) = v div 256" by (rule Suc.IH)
  moreover have "unat (word_of_nat (v mod 256) :: byte) = v mod 256"
    by (simp add: unat_of_nat)
  ultimately show ?case by simp
qed

lemma sint_of_nat_32: "n < 2 ^ 31 \<Longrightarrow> sint (word_of_nat n :: 32 word) = int n"
  by (simp add: signed_of_nat signed_take_bit_int_eq_self)

lemma word_of_nat_32_eq_0: "n < 2 ^ 31 \<Longrightarrow> (word_of_nat n :: 32 word) = 0 \<longleftrightarrow> n = 0"
  using sint_of_nat_32[of n] by (cases "n = 0") auto

lemma le_int32_le_bytes: "n < 2 ^ 31 \<Longrightarrow> le_int32 (le_bytes 4 n) = word_of_nat n"
  by (simp add: le_int32_def le_nat_le_bytes)

lemma size_t_of_int_le_bytes: "n < 2 ^ 31 \<Longrightarrow> size_t_of_int (le_int32 (le_bytes 4 n)) = n"
  by (simp add: le_int32_le_bytes size_t_of_int_def sint_of_nat_32)

lemma le_bytes_4:
  "le_bytes 4 v = [word_of_nat (v mod 256), word_of_nat (v div 256 mod 256),
     word_of_nat (v div 256 div 256 mod 256), word_of_nat (v div 256 div 256 div 256 mod 256)]"
proof -
  have "(4::nat) = Suc (Suc (Suc (Suc 0)))" by simp
  then show ?thesis by (simp only: le_bytes.simps)
qed

lemma magic_bytes: "le_int32 (le_bytes 4 0x4D534554) = NAVMESHSET_MAGIC"
  by (simp add: le_int32_def NAVMESHSET_MAGIC_def le_bytes_4)

lemma version_bytes: "le_int32 (le_bytes 4 1) = NAVMESHSET_VERSION"
  by (simp add: le_int32_def NAVMESHSET_VERSION_def le_bytes_4)

lemma length_tileHeader_bytes [simp]:
  "length (tileHeader_bytes e ref n) = sizeof_tileHeader e"
  by (simp add: tileHeader_bytes_def sizeof_tileHeader_def)

lemma length_tile_record: "length (tile_record e t) = sizeof_tileHeader e + length (snd t)"
  by (simp add: tile_record_def)

lemma memcpy_from_mid:
  "length xs = n \<Longrightarrow> memcpy_from (pre @ xs @ rest) (length pre) n = Inr xs"
  by (simp add: memcpy_from_def)

lemma memcpy_from_short:
  "length content < pos + n \<Longrightarrow> memcpy_from content pos n = Inl OutOfRange"
  by (simp add: memcpy_from_def)

lemma tileHeader_fields:
  assumes "ref < 256 ^ sizeof_dtTileRef e" and "n < 2 ^ 31"
  shows "le_nat (take (sizeof_dtTileRef e) (tileHeader_bytes e ref n)) = ref"
    and "le_int32 (drop (sizeof_dtTileRef e) (tileHeader_bytes e ref n)) = word_of_nat n"
  using assms by (simp_all add: tileHeader_bytes_def le_nat_le_bytes le_int32_le_bytes)

text \<open>One round of the loop on a buffer that holds a tile header at the offset.\<close>

lemma read_tiles_header:
  assumes c: "content = pre @ tileHeader_bytes e ref n @ rest"
    and r: "ref < 256 ^ sizeof_dtTileRef e" and n: "n < 2 ^ 31"
    and len: "length content < 2 ^ 64"
  shows "read_tiles e content (Suc k) (length pre) mesh =
     (if rest = [] then Inr None
      else if ref = 0 \<or> n = 0 then Inr (Some mesh)
      else if \<not> dtAlloc e n then Inr (Some mesh)
      else (case memcpy_from content (length pre + sizeof_tileHeader e) n of
              Inl f \<Rightarrow> Inl f
            | Inr data \<Rightarrow> read_tiles e content k (length pre + sizeof_tileHeader e + n)
                  (mesh\<lparr>mesh_tiles := mesh_tiles mesh @ [(ref, data)]\<rparr>)))"
proof -
  have m: "memcpy_from content (length pre) (sizeof_tileHeader e) = Inr (tileHeader_bytes e ref n)"
    unfolding c by (rule memcpy_from_mid) simp
  have lc: "length content = length pre + sizeof_tileHeader e + length rest"
    by (simp add: c)
  have p1: "(length pre + sizeof_tileHeader e) mod 18446744073709551616
      = length pre + sizeof_tileHeader e"
    using len lc by simp
  have sz: "size_t_of_int (word_of_nat n :: 32 word) = n"
    using n by (simp add: size_t_of_int_def sint_of_nat_32)
  have z: "(word_of_nat n :: 32 word) = 0 \<longleftrightarrow> n = 0"
    using n by (rule word_of_nat_32_eq_0)
  show ?thesis
  proof (cases "rest = []")
    case True
    then show ?thesis
      by (simp add: read_tiles.simps m tileHeader_fields[OF r n] p1 lc Let_def)
  next
    case False
    then have lt: "length pre + sizeof_tileHeader e < length content" by (simp add: lc)
    show ?thesis
    proof (cases "memcpy_from content (length pre + sizeof_tileHeader e) n")
      case (Inl f)
      then show ?thesis
        using False lt by (simp add: read_tiles.simps m tileHeader_fields[OF r n] p1 Let_def sz z)
    next
      case (Inr data)
      then have "length pre + sizeof_tileHeader e + n \<le> length content"
        by (simp add: memcpy_from_def split: if_splits)
      then have p2: "(length pre + sizeof_tileHeader e + n) mod 18446744073709551616
          = length pre + sizeof_tileHeader e + n"
        and le: "\<not> length content < length pre + sizeof_tileHeader e + n"
        using len by simp_all
      show ?thesis
        using False lt Inr by (simp add: read_tiles.simps m tileHeader_fields[OF r n] p1 p2 le Let_def sz z)
    qed
  qed
qed

lemma read_tiles_tile:
  assumes v: "valid_tile e t" and c: "content = pre @ tile_record e t @ rest"
    and len: "length content < 2 ^ 64"
  shows "read_tiles e content (Suc k) (length pre) mesh =
     read_tiles e content k (length pre + length (tile_record e t))
       (mesh\<lparr>mesh_tiles := mesh_tiles mesh @ [t]\<rparr>)"
proof -
  have c': "content = pre @ tileHeader_bytes e (fst t) (length (snd t)) @ (snd t @ rest)"
    by (simp add: c tile_record_def)
  have r: "fst t < 256 ^ sizeof_dtTileRef e" and n: "length (snd t) < 2 ^ 31"
    and nz: "fst t \<noteq> 0" "length (snd t) \<noteq> 0" "snd t \<noteq> []" and al: "dtAlloc e (length (snd t))"
    using v by (auto simp add: valid_tile_def)
  have m: "memcpy_from content (length pre + sizeof_tileHeader e) (length (snd t)) = Inr (snd t)"
    using memcpy_from_mid[of "snd t" "length (snd t)" "pre @ tileHeader_bytes e (fst t) (length (snd t))" rest]
    by (simp add: c')
  show ?thesis
    unfolding read_tiles_header[OF c' r n len, of k mesh]
    by (simp add: nz al m length_tile_record add.assoc)
qed

lemma read_tiles_complete:
  assumes "list_all (valid_tile e) ts"
    and "content = pre @ concat (map (tile_record e) ts) @ rest"
    and "length content < 2 ^ 64"
  shows "read_tiles e content (length ts + k) (length pre) mesh =
     read_tiles e content k (length pre + length (concat (map (tile_record e) ts)))
       (mesh\<lparr>mesh_tiles := mesh_tiles mesh @ ts\<rparr>)"
  using assms
proof (induction ts arbitrary: pre mesh)
  case Nil
  then show ?case by simp
next
  case (Cons t ts)
  have v: "valid_tile e t" and vs: "list_all (valid_tile e) ts" using Cons.prems(1) by simp_all
  have c1: "content = pre @ tile_record e t @ (concat (map (tile_record e) ts) @ rest)"
    using Cons.prems(2) by simp
  have c2: "content = (pre @ tile_record e t) @ concat (map (tile_record e) ts) @ rest"
    using Cons.prems(2) by simp
  have "read_tiles e content (length (t # ts) + k) (length pre) mesh =
      read_tiles e content (length ts + k) (length (pre @ tile_record e t))
        (mesh\<lparr>mesh_tiles := mesh_tiles mesh @ [t]\<rparr>)"
    using read_tiles_tile[OF v c1 Cons.prems(3), of "length ts + k" mesh] by simp
  also have "\<dots> = read_tiles e content k
      (length (pre @ tile_record e t) + length (concat (map (tile_record e) ts)))
      ((mesh\<lparr>mesh_tiles := mesh_tiles mesh @ [t]\<rparr>)\<lparr>mesh_tiles :=
          mesh_tiles (mesh\<lparr>mesh_tiles := mesh_tiles mesh @ [t]\<rparr>) @ ts\<rparr>)"
    by (rule Cons.IH[OF vs c2 Cons.prems(3)])
  finally show ?case by (simp add: add.assoc)
qed

lemma length_header_bytes:
  "length (header_bytes k params) = 12 + length params"
  by (simp add: header_bytes_def)

text \<open>\<^verbatim>\<open>Load\<close> on a buffer that starts with a valid file header.\<close>

lemma Load_valid_header:
  assumes h: "valid_header e k params" and c: "content = header_bytes k params @ body"
  shows "Load e s content =
     (case read_tiles e content k (sizeof_header e) \<lparr>mesh_params = params, mesh_tiles = []\<rparr> of
        Inl f \<Rightarrow> Inl f
      | Inr None \<Rightarrow> Inr (False, s)
      | Inr (Some mesh) \<Rightarrow> Inr (True, install e s mesh content))"
proof -
  have k: "k < 2 ^ 31" and lp: "length params = sizeof_dtNavMeshParams e"
    and ok: "\<not> dtStatusFailed e (navMesh_init e params)"
    using h by (simp_all add: valid_header_def)
  have lh: "length (header_bytes k params) = sizeof_header e"
    by (simp add: length_header_bytes lp sizeof_header_def)
  have m: "memcpy_from content 0 (sizeof_header e) = Inr (header_bytes k params)"
    using memcpy_from_mid[OF lh, of "[]" body] by (simp add: c)
  have f: "take 4 (header_bytes k params) = le_bytes 4 0x4D534554"
    "take 4 (drop 4 (header_bytes k params)) = le_bytes 4 1"
    "take 4 (drop 8 (header_bytes k params)) = le_bytes 4 k"
    "drop 12 (header_bytes k params) = params"
    by (simp_all add: header_bytes_def)
  have nt: "nat (sint (word_of_nat k :: 32 word)) = k" using k by (simp add: sint_of_nat_32)
  show ?thesis
    unfolding Load_def m
    by (simp add: f magic_bytes version_bytes le_int32_le_bytes[OF k] nt ok install_def
        Let_def del: One_nat_def split: sum.split option.split)
qed

lemma Load_short: "length content < sizeof_header e \<Longrightarrow> Load e s content = Inl OutOfRange"
  by (simp add: Load_def memcpy_from_def)

subsection \<open>Zero records and truncated buffers\<close>

lemma Load_after_tiles:
  assumes h: "valid_header e k params" and vs: "list_all (valid_tile e) ts"
    and c: "content = header_bytes k params @ concat (map (tile_record e) ts) @ rest"
    and len: "length content < 2 ^ 64" and k: "k = length ts + j"
  shows "Load e s content =
     (case read_tiles e content j
             (sizeof_header e + length (concat (map (tile_record e) ts)))
             \<lparr>mesh_params = params, mesh_tiles = ts\<rparr> of
        Inl f \<Rightarrow> Inl f
      | Inr None \<Rightarrow> Inr (False, s)
      | Inr (Some mesh) \<Rightarrow> Inr (True, install e s mesh content))"
proof -
  have lh: "length (header_bytes k params) = sizeof_header e"
    using h by (simp add: length_header_bytes valid_header_def sizeof_header_def)
  have "read_tiles e content (length ts + j) (length (header_bytes k params))
          \<lparr>mesh_params = params, mesh_tiles = []\<rparr>
      = read_tiles e content j
          (length (header_bytes k params) + length (concat (map (tile_record e) ts)))
          (\<lparr>mesh_params = params, mesh_tiles = []\<rparr>\<lparr>mesh_tiles :=
             mesh_tiles \<lparr>mesh_params = params, mesh_tiles = []\<rparr> @ ts\<rparr>)"
    by (rule read_tiles_complete[OF vs c len])
  then have "read_tiles e content k (sizeof_header e) \<lparr>mesh_params = params, mesh_tiles = []\<rparr>
      = read_tiles e content j (sizeof_header e + length (concat (map (tile_record e) ts)))
          \<lparr>mesh_params = params, mesh_tiles = ts\<rparr>"
    unfolding lh by (simp add: k)
  then show ?thesis
    by (simp add: Load_valid_header[OF h c])
qed

text \<open>A tile header that is the last bytes of the buffer makes \<^verbatim>\<open>Load\<close> return
  \<^verbatim>\<open>false\<close>, whatever it holds, a zero record included.\<close>

lemma Load_header_record_last:
  assumes h: "valid_header e k params" and vs: "list_all (valid_tile e) ts"
    and c: "content = header_bytes k params @ concat (map (tile_record e) ts)
              @ tileHeader_bytes e ref n"
    and len: "length content < 2 ^ 64" and k: "length ts < k"
    and r: "ref < 256 ^ sizeof_dtTileRef e" and n: "n < 2 ^ 31"
  shows "Load e s content = Inr (False, s)"
proof -
  obtain j where j: "k = length ts + Suc j"
    using k by (metis less_imp_Suc_add add_Suc_right)
  have lh: "length (header_bytes k params) = sizeof_header e"
    using h by (simp add: length_header_bytes valid_header_def sizeof_header_def)
  have c': "content = (header_bytes k params @ concat (map (tile_record e) ts))
              @ tileHeader_bytes e ref n @ []"
    by (simp add: c)
  have "read_tiles e content (Suc j)
          (length (header_bytes k params @ concat (map (tile_record e) ts)))
          \<lparr>mesh_params = params, mesh_tiles = ts\<rparr> = Inr None"
    unfolding read_tiles_header[OF c' r n len] by simp
  then have R: "read_tiles e content (Suc j)
          (sizeof_header e + length (concat (map (tile_record e) ts)))
          \<lparr>mesh_params = params, mesh_tiles = ts\<rparr> = Inr None"
    by (simp add: lh)
  show ?thesis
    unfolding Load_after_tiles[OF h vs c len j] R by simp
qed

text \<open>A zero record that is followed by at least one more byte ends the loop,
  and \<^verbatim>\<open>Load\<close> succeeds with the tiles read before it.\<close>

lemma Load_zero_record_followed:
  assumes h: "valid_header e k params" and vs: "list_all (valid_tile e) ts"
    and c: "content = header_bytes k params @ concat (map (tile_record e) ts)
              @ tileHeader_bytes e ref n @ tail"
    and len: "length content < 2 ^ 64" and k: "length ts < k"
    and r: "ref < 256 ^ sizeof_dtTileRef e" and n: "n < 2 ^ 31"
    and z: "ref = 0 \<or> n = 0" and tail: "tail \<noteq> []"
  shows "Load e s content = Inr (True, install e s \<lparr>mesh_params = params, mesh_tiles = ts\<rparr> content)"
proof -
  obtain j where j: "k = length ts + Suc j"
    using k by (metis less_imp_Suc_add add_Suc_right)
  have lh: "length (header_bytes k params) = sizeof_header e"
    using h by (simp add: length_header_bytes valid_header_def sizeof_header_def)
  have c': "content = (header_bytes k params @ concat (map (tile_record e) ts))
              @ tileHeader_bytes e ref n @ tail"
    by (simp add: c)
  have "read_tiles e content (Suc j)
          (length (header_bytes k params @ concat (map (tile_record e) ts)))
          \<lparr>mesh_params = params, mesh_tiles = ts\<rparr>
        = Inr (Some \<lparr>mesh_params = params, mesh_tiles = ts\<rparr>)"
    unfolding read_tiles_header[OF c' r n len] using z tail by auto
  then have R: "read_tiles e content (Suc j)
          (sizeof_header e + length (concat (map (tile_record e) ts)))
          \<lparr>mesh_params = params, mesh_tiles = ts\<rparr>
        = Inr (Some \<lparr>mesh_params = params, mesh_tiles = ts\<rparr>)"
    by (simp add: lh)
  show ?thesis
    unfolding Load_after_tiles[OF h vs c len j] R by simp
qed

text \<open>On a buffer cut anywhere before the end of its last declared tile the loop
  never completes: it copies from beyond the end of the buffer, or returns
  \<^verbatim>\<open>false\<close> (the cut is directly behind a tile header).\<close>

lemma read_tiles_truncated:
  assumes "list_all (valid_tile e) ts"
    and "t < length (concat (map (tile_record e) ts))"
    and "content = pre @ take t (concat (map (tile_record e) ts))"
    and "length ts \<le> k" and "length content < 2 ^ 64"
  shows "read_tiles e content k (length pre) mesh = Inl OutOfRange \<or>
         read_tiles e content k (length pre) mesh = Inr None"
  using assms
proof (induction ts arbitrary: pre k mesh t)
  case Nil
  then show ?case by simp
next
  case (Cons a ts)
  obtain k' where k': "k = Suc k'" and lk: "length ts \<le> k'"
    using Cons.prems(4) by (cases k) auto
  have v: "valid_tile e a" and vs: "list_all (valid_tile e) ts" using Cons.prems(1) by simp_all
  let ?H = "tileHeader_bytes e (fst a) (length (snd a))"
  let ?h = "sizeof_tileHeader e"
  let ?d = "length (snd a)"
  have rec: "tile_record e a = ?H @ snd a" by (simp add: tile_record_def)
  have r: "fst a < 256 ^ sizeof_dtTileRef e" and n: "?d < 2 ^ 31"
    and nz: "fst a \<noteq> 0" "?d \<noteq> 0" and al: "dtAlloc e ?d"
    using v by (auto simp add: valid_tile_def)
  have lc: "length content = length pre + t"
    using Cons.prems(2,3) by simp
  consider (hdr) "t < ?h" | (data) "?h \<le> t" "t < ?h + ?d" | (later) "?h + ?d \<le> t"
    by linarith
  then show ?case
  proof cases
    case hdr
    then have "length content < length pre + ?h" using lc by simp
    then show ?thesis
      by (simp add: k' read_tiles.simps memcpy_from_short)
  next
    case data
    have c': "content = pre @ ?H @ take (t - ?h) (snd a)"
      using Cons.prems(3) data by (simp add: rec)
    have short: "length content < length pre + ?h + ?d" using lc data by simp
    show ?thesis
      unfolding k' read_tiles_header[OF c' r n Cons.prems(5), of k' mesh]
      by (simp add: nz al memcpy_from_short[OF short])
  next
    case later
    have lr: "length (tile_record e a) = ?h + ?d" by (simp add: length_tile_record)
    have c1: "content = pre @ tile_record e a @ take (t - (?h + ?d)) (concat (map (tile_record e) ts))"
      using Cons.prems(3) later by (simp add: lr)
    have c2: "content = (pre @ tile_record e a) @ take (t - (?h + ?d)) (concat (map (tile_record e) ts))"
      using c1 by simp
    have t': "t - (?h + ?d) < length (concat (map (tile_record e) ts))"
      using Cons.prems(2) later by (simp add: lr)
    have step: "read_tiles e content (Suc k') (length pre) mesh =
        read_tiles e content k' (length (pre @ tile_record e a))
          (mesh\<lparr>mesh_tiles := mesh_tiles mesh @ [a]\<rparr>)"
      using read_tiles_tile[OF v c1 Cons.prems(5), of k' mesh] by simp
    show ?thesis
      unfolding k' step
      by (rule Cons.IH[OF vs t' c2 lk Cons.prems(5)])
  qed
qed

lemma Load_truncated:
  assumes h: "valid_header e k params" and vs: "list_all (valid_tile e) ts"
    and full: "full = header_bytes k params @ concat (map (tile_record e) ts)"
    and k: "length ts \<le> k" and len: "length full < 2 ^ 64" and T: "T < length full"
  shows "Load e s (take T full) = Inl OutOfRange \<or> Load e s (take T full) = Inr (False, s)"
proof (cases "T < sizeof_header e")
  case True
  then have "length (take T full) < sizeof_header e" by simp
  then show ?thesis by (simp add: Load_short)
next
  case False
  have lh: "length (header_bytes k params) = sizeof_header e"
    using h by (simp add: length_header_bytes valid_header_def sizeof_header_def)
  let ?t = "T - sizeof_header e"
  have c: "take T full = header_bytes k params @ take ?t (concat (map (tile_record e) ts))"
    using False by (simp add: full lh)
  have t: "?t < length (concat (map (tile_record e) ts))"
    using T False by (simp add: full lh)
  have l: "length (take T full) < 2 ^ 64" using len by simp
  from read_tiles_truncated[OF vs t c k l, of "\<lparr>mesh_params = params, mesh_tiles = []\<rparr>"]
  show ?thesis
    by (auto simp add: Load_valid_header[OF h c] lh)
qed

text \<open>A \<^verbatim>\<open>Load\<close> that returns \<^verbatim>\<open>false\<close> leaves the object as it was.\<close>

lemma Load_failure_keeps_state: "Load e s content = Inr (False, s') \<Longrightarrow> s' = s"
  by (auto simp add: Load_def Let_def split: sum.splits if_splits option.splits)

subsection \<open>The example buffers\<close>

lemma example_header_bytes: "header_bytes 2 example_params = example_header 2"
  by (simp add: header_bytes_def le_bytes_4 example_header_def example_params_def)

lemma example_tile_record: "tile_record example_engine (1, [9, 9, 9, 9]) = example_tile"
proof -
  have "(8::nat) = Suc (Suc (Suc (Suc (Suc (Suc (Suc (Suc 0)))))))" by simp
  then have "le_bytes 8 (Suc 0) = [1, 0, 0, 0, 0, 0, 0, 0]" by (simp only: le_bytes.simps) simp
  then show ?thesis
    by (simp add: tile_record_def tileHeader_bytes_def example_engine_def le_bytes_4 example_tile_def)
qed

lemma read_tiles_numeral:
  "read_tiles e content (numeral v) pos mesh = read_tiles e content (Suc (pred_numeral v)) pos mesh"
  by (simp add: numeral_eq_Suc)

lemma example_valid:
  "valid_header example_engine 2 example_params \<and> valid_tile example_engine (1, [9, 9, 9, 9])"
  by (simp add: valid_header_def valid_tile_def example_engine_def example_params_def)

subsection \<open>The claims about loading\<close>

text \<open>
  Claim C8. \<^verbatim>\<open>Load\<close> copies the file header from offset 0, and each tile
  header from the running offset, before it compares the offset with the size
  of the buffer. So for every buffer shorter than the file header, and for
  every buffer that has a valid header and complete valid tiles, fewer of
  them than declared, and then ends inside a tile header (with fewer bytes
  left than a tile header has, possibly none), the copy reaches past the end
  of the buffer: the result of \<^verbatim>\<open>Load\<close> is the out-of-range access.
\<close>

theorem Load_reads_before_checking:
  assumes "length content < sizeof_header e \<or>
     (content = header_bytes k params @ concat (map (tile_record e) ts) @ partial \<and>
      valid_header e k params \<and> list_all (valid_tile e) ts \<and> length ts < k \<and>
      length partial < sizeof_tileHeader e \<and> length content < 2 ^ 64)"
  shows "Load e s content = Inl OutOfRange"
  using assms
proof
  assume "length content < sizeof_header e"
  then show ?thesis by (rule Load_short)
next
  assume a: "content = header_bytes k params @ concat (map (tile_record e) ts) @ partial \<and>
      valid_header e k params \<and> list_all (valid_tile e) ts \<and> length ts < k \<and>
      length partial < sizeof_tileHeader e \<and> length content < 2 ^ 64"
  then obtain j where j: "k = length ts + Suc j"
    by (metis less_imp_Suc_add add_Suc_right)
  from a have c: "content = header_bytes k params @ concat (map (tile_record e) ts) @ partial"
    and h: "valid_header e k params" and vs: "list_all (valid_tile e) ts"
    and p: "length partial < sizeof_tileHeader e" and len: "length content < 2 ^ 64"
    by blast+
  have lh: "length (header_bytes k params) = sizeof_header e"
    using h by (simp add: length_header_bytes valid_header_def sizeof_header_def)
  have short: "length content <
      length (header_bytes k params) + length (concat (map (tile_record e) ts)) + sizeof_tileHeader e"
    using p by (simp add: c)
  have "read_tiles e content (length ts + Suc j) (length (header_bytes k params))
          \<lparr>mesh_params = params, mesh_tiles = []\<rparr>
      = read_tiles e content (Suc j)
          (length (header_bytes k params) + length (concat (map (tile_record e) ts)))
          (\<lparr>mesh_params = params, mesh_tiles = []\<rparr>\<lparr>mesh_tiles :=
             mesh_tiles \<lparr>mesh_params = params, mesh_tiles = []\<rparr> @ ts\<rparr>)"
    by (rule read_tiles_complete[OF vs c len])
  also have "\<dots> = Inl OutOfRange"
    by (simp add: read_tiles.simps memcpy_from_short[OF short])
  finally have "read_tiles e content k (sizeof_header e) \<lparr>mesh_params = params, mesh_tiles = []\<rparr>
      = Inl OutOfRange"
    unfolding lh j[symmetric] .
  then show ?thesis
    by (simp add: Load_valid_header[OF h c])
qed

text \<open>The statement on the empty buffer, and on the example header declaring
  two tiles, one complete tile and three bytes of a second tile header.\<close>

theorem Load_reads_before_checking_witness:
  "Load example_engine Navigation_new [] = Inl OutOfRange \<and>
   Load example_engine Navigation_new (example_header 2 @ example_tile @ [1, 0, 0]) = Inl OutOfRange"
proof -
  have a: "length ([] :: byte list) < sizeof_header example_engine"
    by (simp add: sizeof_header_def)
  have b: "example_header 2 @ example_tile @ [1, 0, 0] =
      header_bytes 2 example_params @ concat (map (tile_record example_engine) [(1, [9, 9, 9, 9])])
        @ [1, 0, 0]"
    by (simp add: example_header_bytes example_tile_record del: One_nat_def)
  have c: "length (example_header 2 @ example_tile @ [1, 0, 0]) < 2 ^ 64"
    by (simp add: example_header_def example_tile_def)
  have d: "length [1, 0, 0 :: byte] < sizeof_tileHeader example_engine"
    by (simp add: sizeof_tileHeader_def example_engine_def)
  have v: "valid_header example_engine 2 example_params"
    "list_all (valid_tile example_engine) [(1, [9, 9, 9, 9])]"
    using example_valid by simp_all
  have k: "length [(1 :: nat, [9, 9, 9, 9 :: byte])] < 2" by simp
  have 1: "Load example_engine Navigation_new [] = Inl OutOfRange"
    by (rule Load_reads_before_checking[OF disjI1[OF a]])
  have 2: "Load example_engine Navigation_new (example_header 2 @ example_tile @ [1, 0, 0])
      = Inl OutOfRange"
    using Load_reads_before_checking[OF disjI2[OF conjI[OF b conjI[OF v(1) conjI[OF v(2) conjI[OF k conjI[OF d c]]]]]]] .
  show ?thesis using 1 2 by simp
qed

text \<open>
  Claim C2. A record with a zero reference or a zero data size should end
  tile reading with success also when it is the last bytes of the buffer.
  The code departs from that: it compares the offset behind the tile header
  with the size of the buffer by \<^verbatim>\<open>>=\<close> and returns \<^verbatim>\<open>false\<close> before it looks
  at the record. On the example header declaring two tiles, one complete tile
  and a zero record as the last twelve bytes, \<^verbatim>\<open>Load\<close> returns \<^verbatim>\<open>false\<close>; with
  one more byte behind the zero record it returns \<^verbatim>\<open>true\<close>.
\<close>

theorem Load_zero_record_at_end_fails:
  "Load example_engine Navigation_new
     (example_header 2 @ example_tile @ [0, 0, 0, 0, 0, 0, 0, 0, 0, 0, 0, 0])
     = Inr (False, Navigation_new) \<and>
   fst (projr (Load example_engine Navigation_new
     (example_header 2 @ example_tile @ [0, 0, 0, 0, 0, 0, 0, 0, 0, 0, 0, 0] @ [0]))) = True"
  by (simp add: Load_defs read_tiles_numeral example_defs example_tile_def Let_def)

text \<open>
  Claim C3. A buffer truncated before the end of a declared tile should make
  \<^verbatim>\<open>Load\<close> return \<^verbatim>\<open>false\<close> and leave the loaded state in use. The code
  departs from that: it copies the tile data before it compares the new offset
  with the size of the buffer. On the example header declaring one tile, a tile
  header declaring four bytes and only two bytes of data, the copy reaches past
  the end of the buffer, on an object that holds a loaded surface.
\<close>

theorem Load_truncated_tile_out_of_range:
  "Load example_engine example_loaded (example_header 1 @ [1, 0, 0, 0, 0, 0, 0, 0, 4, 0, 0, 0, 9, 9])
     = Inl OutOfRange"
  by (simp add: Load_defs example_defs Let_def)

section \<open>The capacity of the agent pool\<close>

lemma pool_filled_free_slot:
  assumes "pool_filled N k s" and "crowd s = Some c"
  shows "free_slot (agents c) = (if k < N then Some k else None)"
proof (cases "k < N")
  case True
  then show ?thesis
    using assms by (simp add: pool_filled_def free_slot_Some)
next
  case False
  then show ?thesis
    using assms by (simp add: pool_filled_def free_slot_None)
qed

lemma AddWalker_pool_full:
  assumes "pool_filled N k s" and "N \<le> k"
  shows "AddWalker e s aid from off = (False, s)"
proof -
  obtain c where c: "crowd s = Some c" using assms(1) by (auto simp add: pool_filled_def split: option.splits)
  have "free_slot (agents c) = None" using pool_filled_free_slot[OF assms(1) c] assms(2) by simp
  then show ?thesis by (rule AddWalker_full[OF c])
qed

lemma AddWalker_pool_free:
  assumes p: "pool_filled N k s" and k: "k < N"
  shows "\<exists>s1. AddWalker e s aid from off = (True, s1) \<and> pool_filled N (Suc k) s1 \<and>
     mappedId s1 = (mappedId s)(aid \<mapsto> int k) \<and>
     (\<exists>a. slot_agent s1 k = Some a \<and> active a \<and> npos a = to_engine from \<and> vel a = (0, 0, 0)) \<and>
     (\<forall>i. i \<noteq> k \<longrightarrow> slot_agent s1 i = slot_agent s i)"
proof -
  obtain c where c: "crowd s = Some c" using p by (auto simp add: pool_filled_def split: option.splits)
  have fs: "free_slot (agents c) = Some k" using pool_filled_free_slot[OF p c] k by simp
  have l: "length (agents c) = N" and act: "\<forall>i<N. active (agents c ! i) = (i < k)"
    using p c by (simp_all add: pool_filled_def)
  from AddWalker_free[OF c fs, of e aid "from" off] obtain ps where
    a: "AddWalker e s aid from off =
       (True, s\<lparr>crowd := Some (c\<lparr>agents := (agents c)[k := new_agent (to_engine from) ps]\<rparr>),
                 mappedId := (mappedId s)(aid \<mapsto> int k),
                 baseHeight := (baseHeight s)(aid \<mapsto> off),
                 yaw_walkers := (yaw_walkers s)(aid \<mapsto> 0)\<rparr>)"
    by blast
  let ?s1 = "s\<lparr>crowd := Some (c\<lparr>agents := (agents c)[k := new_agent (to_engine from) ps]\<rparr>),
                 mappedId := (mappedId s)(aid \<mapsto> int k),
                 baseHeight := (baseHeight s)(aid \<mapsto> off),
                 yaw_walkers := (yaw_walkers s)(aid \<mapsto> 0)\<rparr>"
  have pf: "pool_filled N (Suc k) ?s1"
    using l act k by (auto simp add: pool_filled_def nth_list_update new_agent_def less_Suc_eq)
  have ag: "\<exists>a. slot_agent ?s1 k = Some a \<and> active a \<and> npos a = to_engine from \<and> vel a = (0, 0, 0)"
    using l k by (simp add: slot_agent_def getAgent_def new_agent_def)
  have oth: "\<forall>i. i \<noteq> k \<longrightarrow> slot_agent ?s1 i = slot_agent s i"
    using c by (simp add: slot_agent_def getAgent_def)
  show ?thesis using a pf ag oth by simp
qed

lemma AddWalkers_pool:
  assumes "pool_filled N k s" and "k \<le> N" and "distinct (map fst ws)"
  shows "\<exists>s'. AddWalkers e s ws = (map (\<lambda>j. k + j < N) [0..<length ws], s') \<and>
        pool_filled N (min N (k + length ws)) s' \<and>
        (\<forall>a. a \<notin> fst ` set ws \<longrightarrow> mappedId s' a = mappedId s a) \<and>
        (\<forall>i<k. slot_agent s' i = slot_agent s i) \<and>
        (\<forall>j<length ws. k + j < N \<longrightarrow>
            mappedId s' (fst (ws ! j)) = Some (int (k + j)) \<and>
            (\<exists>a. slot_agent s' (k + j) = Some a \<and> active a \<and>
                 npos a = to_engine (fst (snd (ws ! j))) \<and> vel a = (0, 0, 0)))"
  using assms
proof (induction ws arbitrary: s k)
  case Nil
  then show ?case by simp
next
  case (Cons w ws)
  obtain aid "from" off where w: "w = (aid, from, off)" by (cases w) auto
  have d: "distinct (map fst ws)" and nin: "aid \<notin> fst ` set ws"
    using Cons.prems(3) w by auto
  show ?case
  proof (cases "k < N")
    case True
    from AddWalker_pool_free[OF Cons.prems(1) True, of e aid "from" off] obtain s1 where
      s1: "AddWalker e s aid from off = (True, s1)" "pool_filled N (Suc k) s1"
        "mappedId s1 = (mappedId s)(aid \<mapsto> int k)"
        "\<exists>a. slot_agent s1 k = Some a \<and> active a \<and> npos a = to_engine from \<and> vel a = (0, 0, 0)"
        "\<forall>i. i \<noteq> k \<longrightarrow> slot_agent s1 i = slot_agent s i"
      by blast
    have k1: "Suc k \<le> N" using True by simp
    from Cons.IH[OF s1(2) k1 d] obtain s' where
      s': "AddWalkers e s1 ws = (map (\<lambda>j. Suc k + j < N) [0..<length ws], s')"
        "pool_filled N (min N (Suc k + length ws)) s'"
        "\<forall>a. a \<notin> fst ` set ws \<longrightarrow> mappedId s' a = mappedId s1 a"
        "\<forall>i<Suc k. slot_agent s' i = slot_agent s1 i"
        "\<forall>j<length ws. Suc k + j < N \<longrightarrow>
            mappedId s' (fst (ws ! j)) = Some (int (Suc k + j)) \<and>
            (\<exists>a. slot_agent s' (Suc k + j) = Some a \<and> active a \<and>
                 npos a = to_engine (fst (snd (ws ! j))) \<and> vel a = (0, 0, 0))"
      by blast
    have run: "AddWalkers e s (w # ws) = (map (\<lambda>j. k + j < N) [0..<length (w # ws)], s')"
      using True by (simp add: w s1(1) s'(1) map_upt_Suc del: upt_Suc)
    have pf: "pool_filled N (min N (k + length (w # ws))) s'"
      using s'(2) by simp
    have fr: "\<forall>a. a \<notin> fst ` set (w # ws) \<longrightarrow> mappedId s' a = mappedId s a"
      using s'(3) s1(3) w by auto
    have sl: "\<forall>i<k. slot_agent s' i = slot_agent s i"
      using s'(4) s1(5) by auto
    have each: "mappedId s' (fst ((w # ws) ! j)) = Some (int (k + j)) \<and>
            (\<exists>a. slot_agent s' (k + j) = Some a \<and> active a \<and>
                 npos a = to_engine (fst (snd ((w # ws) ! j))) \<and> vel a = (0, 0, 0))"
      if j: "j < length (w # ws)" "k + j < N" for j
    proof (cases j)
      case 0
      have "mappedId s' aid = Some (int k)" using s'(3) nin s1(3) by simp
      moreover have "slot_agent s' k = slot_agent s1 k" using s'(4) by simp
      ultimately show ?thesis using 0 w s1(4) by simp
    next
      case (Suc j')
      then show ?thesis using s'(5) j by simp
    qed
    show ?thesis using run pf fr sl each by blast
  next
    case False
    then have kN: "N \<le> k" by simp
    have s1: "AddWalker e s aid from off = (False, s)"
      by (rule AddWalker_pool_full[OF Cons.prems(1) kN])
    from Cons.IH[OF Cons.prems(1,2) d] obtain s' where
      s': "AddWalkers e s ws = (map (\<lambda>j. k + j < N) [0..<length ws], s')"
        "pool_filled N (min N (k + length ws)) s'"
        "\<forall>a. a \<notin> fst ` set ws \<longrightarrow> mappedId s' a = mappedId s a"
        "\<forall>i<k. slot_agent s' i = slot_agent s i"
      by blast
    have allF: "map (\<lambda>j. k + j < N) xs = map (\<lambda>j. False) xs" for xs
      using kN by simp
    have run: "AddWalkers e s (w # ws) = (map (\<lambda>j. k + j < N) [0..<length (w # ws)], s')"
      unfolding allF using s'(1) by (simp add: w s1 allF map_upt_Suc del: upt_Suc)
    have pf: "pool_filled N (min N (k + length (w # ws))) s'"
      using s'(2) kN by (simp add: min_def)
    have fr: "\<forall>a. a \<notin> fst ` set (w # ws) \<longrightarrow> mappedId s' a = mappedId s a"
      using s'(3) by auto
    show ?thesis using run pf fr s'(4) kN by auto
  qed
qed

lemma Load_success_crowd:
  assumes "Load e s content = Inr (True, s0)" and "crowd s = None"
  shows "pool_filled MAX_AGENTS 0 s0 \<and> mappedId s0 = mappedId s"
  using assms
  by (auto simp add: Load_def Let_def CreateCrowd_def dtCrowd_init_def pool_filled_def free_agent_def
      split: sum.splits if_splits option.splits)

lemma map_less_replicate:
  "map (\<lambda>j. j < N) [0..<n] = replicate (min n N) True @ replicate (n - N) False"
  by (rule nth_equalityI) (auto simp add: nth_append)

lemma GetWalkerSpeed_still:
  assumes "mappedId s aid = Some (int i)" and "slot_agent s i = Some a" and "vel a = (0, 0, 0)"
  shows "GetWalkerSpeed s aid = Inr 0"
  using assms by (auto simp add: GetWalkerSpeed_def slot_agent_def split: option.splits)

lemma GetWalkerTransform_active:
  assumes "mappedId s aid = Some (int i)" and "slot_agent s i = Some a" and "active a"
  shows "\<exists>trans1 s1. GetWalkerTransform fp s aid trans0 = Inr (True, trans1, s1)"
proof -
  obtain c where c: "crowd s = Some c" "getAgent c (int i) = Some a"
    using assms(2) by (auto simp add: slot_agent_def split: option.splits)
  have "int i \<noteq> - 1" by simp
  from GetWalkerTransform_run[OF assms(1) this c assms(3), of fp trans0] show ?thesis by blast
qed

text \<open>
  Claim C5. On an object whose crowd was created by a successful \<^verbatim>\<open>Load\<close>
  (a pool of 500 free slots), let \<^verbatim>\<open>AddWalker\<close> be called for a list of
  walkers with distinct identities. Then the first 500 calls return \<^verbatim>\<open>true\<close>
  and every later call returns \<^verbatim>\<open>false\<close>. In the final state the \<open>j\<close>-th of
  the first 500 walkers is still mapped to slot \<open>j\<close>, the slot holds an active
  agent at the walker's position, and \<^verbatim>\<open>GetWalkerSpeed\<close> and
  \<^verbatim>\<open>GetWalkerTransform\<close> answer for it. Once 500 walkers are in, the
  engine's \<open>addAgent\<close> returns -1 and leaves the pool as it is, and
  \<^verbatim>\<open>AddWalker\<close> returns \<^verbatim>\<open>false\<close> for every identity without changing the state.
\<close>

theorem AddWalker_capacity:
  assumes load: "Load e s content = Inr (True, s0)" and fresh: "crowd s = None"
    and dist: "distinct (map fst ws)"
    and run: "AddWalkers e s0 ws = (oks, sN)"
  shows "oks = replicate (min (length ws) 500) True @ replicate (length ws - 500) False \<and>
     (\<forall>j<length ws. j < 500 \<longrightarrow>
        mappedId sN (fst (ws ! j)) = Some (int j) \<and>
        (\<exists>a. slot_agent sN j = Some a \<and> active a \<and> npos a = to_engine (fst (snd (ws ! j)))) \<and>
        GetWalkerSpeed sN (fst (ws ! j)) = Inr 0 \<and>
        (\<forall>trans0. \<exists>trans1 s1. GetWalkerTransform fp sN (fst (ws ! j)) trans0 = Inr (True, trans1, s1))) \<and>
     (500 \<le> length ws \<longrightarrow>
        (\<exists>c. crowd sN = Some c \<and> (\<forall>pos ps. addAgent c pos ps = (- 1, c))) \<and>
        (\<forall>aid from off. AddWalker e sN aid from off = (False, sN)))"
proof -
  have p0: "pool_filled MAX_AGENTS 0 s0" using Load_success_crowd[OF load fresh] by simp
  from AddWalkers_pool[OF p0 _ dist, of e] run have
    oks: "oks = map (\<lambda>j. 0 + j < MAX_AGENTS) [0..<length ws]"
    and pf: "pool_filled MAX_AGENTS (min MAX_AGENTS (0 + length ws)) sN"
    and each: "\<forall>j<length ws. 0 + j < MAX_AGENTS \<longrightarrow>
            mappedId sN (fst (ws ! j)) = Some (int (0 + j)) \<and>
            (\<exists>a. slot_agent sN (0 + j) = Some a \<and> active a \<and>
                 npos a = to_engine (fst (snd (ws ! j))) \<and> vel a = (0, 0, 0))"
    by auto
  have A: "oks = replicate (min (length ws) 500) True @ replicate (length ws - 500) False"
    using oks by (simp add: map_less_replicate MAX_AGENTS_def)
  have B: "mappedId sN (fst (ws ! j)) = Some (int j) \<and>
        (\<exists>a. slot_agent sN j = Some a \<and> active a \<and> npos a = to_engine (fst (snd (ws ! j)))) \<and>
        GetWalkerSpeed sN (fst (ws ! j)) = Inr 0 \<and>
        (\<forall>trans0. \<exists>trans1 s1. GetWalkerTransform fp sN (fst (ws ! j)) trans0 = Inr (True, trans1, s1))"
    if j: "j < length ws" "j < 500" for j
  proof -
    from each j obtain a where m: "mappedId sN (fst (ws ! j)) = Some (int j)"
      and a: "slot_agent sN j = Some a" "active a" "npos a = to_engine (fst (snd (ws ! j)))"
        "vel a = (0, 0, 0)"
      by (auto simp add: MAX_AGENTS_def)
    show ?thesis
      using m a GetWalkerSpeed_still[OF m a(1) a(4)] GetWalkerTransform_active[OF m a(1) a(2)]
      by blast
  qed
  have C: "(\<exists>c. crowd sN = Some c \<and> (\<forall>pos ps. addAgent c pos ps = (- 1, c))) \<and>
        (\<forall>aid from off. AddWalker e sN aid from off = (False, sN))"
    if full: "500 \<le> length ws"
  proof -
    have pf': "pool_filled MAX_AGENTS MAX_AGENTS sN"
      using pf full by (simp add: MAX_AGENTS_def min_def)
    then obtain c where c: "crowd sN = Some c"
      by (auto simp add: pool_filled_def split: option.splits)
    have "free_slot (agents c) = None" using pool_filled_free_slot[OF pf' c] by simp
    then have "\<forall>pos ps. addAgent c pos ps = (- 1, c)" by (simp add: addAgent_def)
    moreover have "\<forall>aid from off. AddWalker e sN aid from off = (False, sN)"
      using AddWalker_pool_full[OF pf'] by simp
    ultimately show ?thesis using c by blast
  qed
  show ?thesis using A B C by blast
qed

text \<open>The statement for 501 walkers on the loaded example: 500 calls succeed,
  the last one fails.\<close>

theorem AddWalker_capacity_witness:
  "Load example_engine Navigation_new example_content = Inr (True, example_loaded) \<and>
   crowd Navigation_new = None \<and> distinct (map fst example_walkers) \<and>
   length example_walkers = 501 \<and>
   fst (AddWalkers example_engine example_loaded example_walkers) = replicate 500 True @ [False]"
proof -
  have f: "crowd Navigation_new = None" by (simp add: Navigation_new_def)
  have d: "distinct (map fst example_walkers)" by (simp add: example_walkers_def comp_def)
  have l: "length example_walkers = 501" by (simp add: example_walkers_def)
  have r: "AddWalkers example_engine example_loaded example_walkers =
      (fst (AddWalkers example_engine example_loaded example_walkers),
       snd (AddWalkers example_engine example_loaded example_walkers))"
    by simp
  from AddWalker_capacity[OF example_Load f d r] show ?thesis
    using f d l example_Load by simp
qed

end
